theory Spec2Isabelle
  imports Main "HOL-Library.Multiset" "HOL-Library.Sublist" "HOL-Library.Product_Lexorder"
begin

section \<open>JavaScript values, strings and errors\<close>

text \<open>
  Values that reach \<open>index.js\<close> from the network are JSON values; a property that is
  missing reads as \<open>undefined\<close>. A number keeps the text of its literal: no function of
  the launcher computes with a number of the remote document. Strings are sequences of
  code units below 256.
\<close>

datatype jsval =
    JUndefined
  | JNull
  | JBool bool
  | JNum string
  | JStr string
  | JArr "jsval list"
  | JObj "(string \<times> jsval) list"

text \<open>
  Errors that can be thrown: the engine's \<open>TypeError\<close> and \<open>SyntaxError\<close>, readline's
  \<open>ERR_USE_AFTER_CLOSE\<close>, and an error of the environment (axios, fs, child_process)
  with its \<open>code\<close> (when it has one) and its \<open>message\<close>.
\<close>

datatype js_error =
    TypeError
  | SyntaxError
  | ErrUseAfterClose
  | ExternalError "string option" string

fun error_code :: "js_error \<Rightarrow> string option" where
  "error_code (ExternalError c m) = c"
| "error_code ErrUseAfterClose = Some ''ERR_USE_AFTER_CLOSE''"
| "error_code TypeError = None"
| "error_code SyntaxError = None"

text \<open>White space of \<open>String.prototype.trim\<close> and of the regular expression class \<open>\s\<close>,
  among the code units below 256: TAB, LF, VT, FF, CR, SP and NBSP.\<close>

definition js_space :: "char \<Rightarrow> bool" where
  "js_space c = (c \<in> set [CHR 0x09, CHR 0x0A, CHR 0x0B, CHR 0x0C, CHR 0x0D, CHR 0x20, CHR 0xA0])"

definition trim :: "string \<Rightarrow> string" where
  "trim s = rev (dropWhile js_space (rev (dropWhile js_space s)))"

text \<open>\<open>s.split('.')\<close>: the pieces between the dots; never an empty array.\<close>

fun split_dot :: "string \<Rightarrow> string list" where
  "split_dot [] = [[]]"
| "split_dot (c # cs) =
     (if c = CHR ''.'' then [] # split_dot cs
      else (case split_dot cs of [] \<Rightarrow> [[c]] | p # ps \<Rightarrow> (c # p) # ps))"

section \<open>Version comparison (checkVersion, lines 160-181)\<close>

text \<open>
  What \<open>parts[i]\<close> can be after \<open>split('.').map(Number)\<close>: a number, \<open>NaN\<close>, or
  \<open>undefined\<close> beyond the end of the array. \<open>Number\<close> is modelled on decimal integer
  literals (optionally signed, surrounded by white space; the empty string is 0) and
  gives \<open>NaN\<close> on every other string; it is exact for literals of magnitude below
  \<open>2^53\<close>. Exponent, radix-prefixed and \<open>Infinity\<close> literals are outside the model.
\<close>

datatype elem = Num int | NaN | Undefined

definition is_digit :: "char \<Rightarrow> bool" where
  "is_digit c = (48 \<le> (of_char c :: nat) \<and> (of_char c :: nat) \<le> 57)"

definition digit_val :: "char \<Rightarrow> int" where
  "digit_val c = int (of_char c) - 48"

definition digits_val :: "string \<Rightarrow> int" where
  "digits_val ds = foldl (\<lambda>n c. 10 * n + digit_val c) 0 ds"

definition Number :: "string \<Rightarrow> elem" where
  "Number s =
     (case trim s of
        [] \<Rightarrow> Num 0
      | c # ds \<Rightarrow>
          if list_all is_digit (c # ds) then Num (digits_val (c # ds))
          else if c = CHR ''+'' \<and> ds \<noteq> [] \<and> list_all is_digit ds then Num (digits_val ds)
          else if c = CHR ''-'' \<and> ds \<noteq> [] \<and> list_all is_digit ds then Num (- digits_val ds)
          else NaN)"

text \<open>\<open>xs[i]\<close> on an array of numbers: \<open>undefined\<close> out of range.\<close>

definition idx :: "elem list \<Rightarrow> nat \<Rightarrow> elem" where
  "idx xs i = (if i < length xs then xs ! i else Undefined)"

text \<open>\<open>x !== y\<close>, \<open>y - x\<close> and \<open>x < y\<close> on such values: \<open>NaN\<close> differs from everything,
  \<open>undefined\<close> converts to \<open>NaN\<close> in arithmetic and in a comparison.\<close>

fun strict_neq :: "elem \<Rightarrow> elem \<Rightarrow> bool" where
  "strict_neq (Num a) (Num b) = (a \<noteq> b)"
| "strict_neq Undefined Undefined = False"
| "strict_neq x y = True"

fun js_minus :: "elem \<Rightarrow> elem \<Rightarrow> elem" where
  "js_minus (Num a) (Num b) = Num (a - b)"
| "js_minus x y = NaN"

fun js_less :: "elem \<Rightarrow> elem \<Rightarrow> bool" where
  "js_less (Num a) (Num b) = (a < b)"
| "js_less x y = False"

text \<open>\<open>v.split('.').map(Number)\<close> on a property value: a \<open>TypeError\<close> unless it is a string.\<close>

definition version_parts :: "jsval \<Rightarrow> js_error + elem list" where
  "version_parts v = (case v of JStr s \<Rightarrow> Inr (map Number (split_dot s)) | _ \<Rightarrow> Inl TypeError)"

text \<open>The record \<open>fetchVersionsJson\<close> builds for each entry of the remote document.\<close>

record version_info =
  version :: jsval
  update_date :: string
  changes :: jsval

text \<open>The comparator of \<open>versions.sort\<close>: the loop over \<open>i = 0, 1, 2\<close>.\<close>

fun compare_loop :: "elem list \<Rightarrow> elem list \<Rightarrow> nat list \<Rightarrow> elem" where
  "compare_loop aParts bParts [] = Num 0"
| "compare_loop aParts bParts (i # is) =
     (if strict_neq (idx aParts i) (idx bParts i) then js_minus (idx bParts i) (idx aParts i)
      else compare_loop aParts bParts is)"

definition comparator :: "version_info \<Rightarrow> version_info \<Rightarrow> js_error + elem" where
  "comparator a b =
     (case version_parts (version a) of
        Inl e \<Rightarrow> Inl e
      | Inr aParts \<Rightarrow>
          (case version_parts (version b) of
             Inl e \<Rightarrow> Inl e
           | Inr bParts \<Rightarrow> Inr (compare_loop aParts bParts [0..<3])))"

text \<open>
  \<open>Array.prototype.sort\<close> with a comparator: a stable sort (ECMAScript 2019) that puts
  \<open>a\<close> after \<open>b\<close> when the comparator is positive and treats \<open>NaN\<close> as 0. With a
  consistent comparator every stable sort returns the same array, here computed by
  insertion. An error thrown by the comparator leaves \<open>sort\<close>.
\<close>

fun positive :: "elem \<Rightarrow> bool" where
  "positive (Num n) = (0 < n)"
| "positive x = False"

fun sort_insert :: "('a \<Rightarrow> 'a \<Rightarrow> js_error + elem) \<Rightarrow> 'a \<Rightarrow> 'a list \<Rightarrow> js_error + 'a list" where
  "sort_insert cmp x [] = Inr [x]"
| "sort_insert cmp x (y # ys) =
     (case cmp x y of
        Inl e \<Rightarrow> Inl e
      | Inr c \<Rightarrow>
          if positive c then
            (case sort_insert cmp x ys of Inl e \<Rightarrow> Inl e | Inr zs \<Rightarrow> Inr (y # zs))
          else Inr (x # y # ys))"

fun js_sort :: "('a \<Rightarrow> 'a \<Rightarrow> js_error + elem) \<Rightarrow> 'a list \<Rightarrow> js_error + 'a list" where
  "js_sort cmp [] = Inr []"
| "js_sort cmp (x # xs) =
     (case js_sort cmp xs of Inl e \<Rightarrow> Inl e | Inr ys \<Rightarrow> sort_insert cmp x ys)"

text \<open>The loop that sets \<open>isLatest\<close> (lines 173-181).\<close>

fun isLatest_loop :: "elem list \<Rightarrow> elem list \<Rightarrow> nat list \<Rightarrow> bool" where
  "isLatest_loop cur lat [] = True"
| "isLatest_loop cur lat (i # is) =
     (if js_less (idx cur i) (idx lat i) then False
      else if js_less (idx lat i) (idx cur i) then True
      else isLatest_loop cur lat is)"

definition CURRENT_VERSION :: string where
  "CURRENT_VERSION = ''1.0.0''"


text \<open>\<open>s.toLowerCase()\<close> on code units below 256.\<close>

definition toLowerCase :: "string \<Rightarrow> string" where
  "toLowerCase s =
     map (\<lambda>c. let n = (of_char c :: nat) in
            if (65 \<le> n \<and> n \<le> 90) \<or> (192 \<le> n \<and> n \<le> 222 \<and> n \<noteq> 215)
            then char_of (n + 32) else c) s"

section \<open>The version document: cleanup and JSON.parse (fetchVersionsJson, lines 38-41)\<close>

text \<open>\<open>data.replace(/\s+/g, ' ')\<close>: every maximal run of white space becomes one space.
  The flag says whether the previous character was white space.\<close>

fun collapse :: "bool \<Rightarrow> string \<Rightarrow> string" where
  "collapse b [] = []"
| "collapse b (c # cs) =
     (if js_space c then (if b then collapse True cs else CHR '' '' # collapse True cs)
      else c # collapse False cs)"

text \<open>\<open>.replace(/,]/g, ']')\<close> and \<open>.replace(/,}/g, '}')\<close>: a global replacement scans left
  to right and goes on after each match.\<close>

fun remove_comma_before :: "char \<Rightarrow> string \<Rightarrow> string" where
  "remove_comma_before x (c # d # cs) =
     (if c = CHR '','' \<and> d = x then x # remove_comma_before x cs
      else c # remove_comma_before x (d # cs))"
| "remove_comma_before x cs = cs"

definition cleanup :: "string \<Rightarrow> string" where
  "cleanup s = remove_comma_before CHR ''}'' (remove_comma_before CHR '']'' (collapse False s))"

text \<open>
  \<open>JSON.parse\<close>, after the JSON grammar of ECMA-404: one pass over the characters with a
  lexical state and a stack of the arrays and objects that are open. A \<open>\u\<close> escape gives
  the code unit modulo 256.
\<close>

datatype frame =
    InArr "jsval list"
  | InObj "(string \<times> jsval) list"
  | InMember "(string \<times> jsval) list" string

datatype expect =
    ExpValue
  | ExpValueOrClose
  | ExpCommaOrClose
  | ExpKeyOrClose
  | ExpKey
  | ExpColon
  | Finished jsval

datatype numstate = NMinus | NZero | NInt | NDot | NFrac | NExp | NExpSign | NExpDigits

datatype lex =
    Idle
  | InString string
  | InEscape string
  | InUnicode string "nat list"
  | InNumber numstate string
  | InLiteral string jsval

type_synonym pstate = "expect \<times> frame list"

fun deliver :: "jsval \<Rightarrow> frame list \<Rightarrow> pstate option" where
  "deliver v [] = Some (Finished v, [])"
| "deliver v (InArr vs # st) = Some (ExpCommaOrClose, InArr (v # vs) # st)"
| "deliver v (InMember kvs k # st) = Some (ExpCommaOrClose, InObj ((k, v) # kvs) # st)"
| "deliver v (InObj kvs # st) = None"

fun put_value :: "jsval \<Rightarrow> pstate \<Rightarrow> pstate option" where
  "put_value v (ExpValue, st) = deliver v st"
| "put_value v (ExpValueOrClose, st) = deliver v st"
| "put_value v (e, st) = None"

fun put_string :: "string \<Rightarrow> pstate \<Rightarrow> pstate option" where
  "put_string k (ExpKey, InObj kvs # st) = Some (ExpColon, InMember kvs k # st)"
| "put_string k (ExpKeyOrClose, InObj kvs # st) = Some (ExpColon, InMember kvs k # st)"
| "put_string k ps = put_value (JStr k) ps"

fun open_bracket :: "frame \<Rightarrow> expect \<Rightarrow> pstate \<Rightarrow> pstate option" where
  "open_bracket f e' (ExpValue, st) = Some (e', f # st)"
| "open_bracket f e' (ExpValueOrClose, st) = Some (e', f # st)"
| "open_bracket f e' (e, st) = None"

fun close_array :: "pstate \<Rightarrow> pstate option" where
  "close_array (ExpValueOrClose, InArr vs # st) = deliver (JArr (rev vs)) st"
| "close_array (ExpCommaOrClose, InArr vs # st) = deliver (JArr (rev vs)) st"
| "close_array ps = None"

fun close_object :: "pstate \<Rightarrow> pstate option" where
  "close_object (ExpKeyOrClose, InObj kvs # st) = deliver (JObj (rev kvs)) st"
| "close_object (ExpCommaOrClose, InObj kvs # st) = deliver (JObj (rev kvs)) st"
| "close_object ps = None"

fun put_comma :: "pstate \<Rightarrow> pstate option" where
  "put_comma (ExpCommaOrClose, InArr vs # st) = Some (ExpValue, InArr vs # st)"
| "put_comma (ExpCommaOrClose, InObj kvs # st) = Some (ExpKey, InObj kvs # st)"
| "put_comma ps = None"

fun put_colon :: "pstate \<Rightarrow> pstate option" where
  "put_colon (ExpColon, st) = Some (ExpValue, st)"
| "put_colon ps = None"

definition is_digit19 :: "char \<Rightarrow> bool" where
  "is_digit19 c = (49 \<le> (of_char c :: nat) \<and> (of_char c :: nat) \<le> 57)"

definition is_e :: "char \<Rightarrow> bool" where
  "is_e c = (c = CHR ''e'' \<or> c = CHR ''E'')"

fun num_step :: "numstate \<Rightarrow> char \<Rightarrow> numstate option" where
  "num_step NMinus c = (if c = CHR ''0'' then Some NZero else if is_digit19 c then Some NInt else None)"
| "num_step NZero c = (if c = CHR ''.'' then Some NDot else if is_e c then Some NExp else None)"
| "num_step NInt c =
     (if is_digit c then Some NInt else if c = CHR ''.'' then Some NDot
      else if is_e c then Some NExp else None)"
| "num_step NDot c = (if is_digit c then Some NFrac else None)"
| "num_step NFrac c = (if is_digit c then Some NFrac else if is_e c then Some NExp else None)"
| "num_step NExp c =
     (if c = CHR ''+'' \<or> c = CHR ''-'' then Some NExpSign
      else if is_digit c then Some NExpDigits else None)"
| "num_step NExpSign c = (if is_digit c then Some NExpDigits else None)"
| "num_step NExpDigits c = (if is_digit c then Some NExpDigits else None)"

fun num_final :: "numstate \<Rightarrow> bool" where
  "num_final NZero = True"
| "num_final NInt = True"
| "num_final NFrac = True"
| "num_final NExpDigits = True"
| "num_final ns = False"

definition json_space :: "char \<Rightarrow> bool" where
  "json_space c = (c \<in> set [CHR 0x20, CHR 0x09, CHR 0x0A, CHR 0x0D])"

definition hex_val :: "char \<Rightarrow> nat option" where
  "hex_val c =
     (let n = (of_char c :: nat) in
      if 48 \<le> n \<and> n \<le> 57 then Some (n - 48)
      else if 65 \<le> n \<and> n \<le> 70 then Some (n - 55)
      else if 97 \<le> n \<and> n \<le> 102 then Some (n - 87)
      else None)"

definition escape_char :: "char \<Rightarrow> char option" where
  "escape_char c =
     (if c = CHR 0x22 \<or> c = CHR 0x5C \<or> c = CHR ''/'' then Some c
      else if c = CHR ''b'' then Some (CHR 0x08)
      else if c = CHR ''f'' then Some (CHR 0x0C)
      else if c = CHR ''n'' then Some (CHR 0x0A)
      else if c = CHR ''r'' then Some (CHR 0x0D)
      else if c = CHR ''t'' then Some (CHR 0x09)
      else None)"

text \<open>A character read between two tokens.\<close>

definition idle_step :: "char \<Rightarrow> pstate \<Rightarrow> (lex \<times> pstate) option" where
  "idle_step c ps =
     (if json_space c then Some (Idle, ps)
      else if c = CHR 0x22 then Some (InString [], ps)
      else if c = CHR ''-'' then Some (InNumber NMinus [c], ps)
      else if c = CHR ''0'' then Some (InNumber NZero [c], ps)
      else if is_digit19 c then Some (InNumber NInt [c], ps)
      else if c = CHR ''t'' then Some (InLiteral ''rue'' (JBool True), ps)
      else if c = CHR ''f'' then Some (InLiteral ''alse'' (JBool False), ps)
      else if c = CHR ''n'' then Some (InLiteral ''ull'' JNull, ps)
      else map_option (Pair Idle)
        (if c = CHR ''['' then open_bracket (InArr []) ExpValueOrClose ps
         else if c = CHR ''{'' then open_bracket (InObj []) ExpKeyOrClose ps
         else if c = CHR '']'' then close_array ps
         else if c = CHR ''}'' then close_object ps
         else if c = CHR '','' then put_comma ps
         else if c = CHR '':'' then put_colon ps
         else None))"

fun char_step :: "lex \<times> pstate \<Rightarrow> char \<Rightarrow> (lex \<times> pstate) option" where
  "char_step (Idle, ps) c = idle_step c ps"
| "char_step (InString acc, ps) c =
     (if c = CHR 0x22 then map_option (Pair Idle) (put_string (rev acc) ps)
      else if c = CHR 0x5C then Some (InEscape acc, ps)
      else if (of_char c :: nat) < 32 then None
      else Some (InString (c # acc), ps))"
| "char_step (InEscape acc, ps) c =
     (if c = CHR ''u'' then Some (InUnicode acc [], ps)
      else map_option (\<lambda>d. (InString (d # acc), ps)) (escape_char c))"
| "char_step (InUnicode acc hs, ps) c =
     (case hex_val c of
        None \<Rightarrow> None
      | Some h \<Rightarrow>
          if length hs = 3
          then Some (InString (char_of (foldl (\<lambda>n d. 16 * n + d) 0 (hs @ [h])) # acc), ps)
          else Some (InUnicode acc (hs @ [h]), ps))"
| "char_step (InNumber ns acc, ps) c =
     (case num_step ns c of
        Some ns' \<Rightarrow> Some (InNumber ns' (c # acc), ps)
      | None \<Rightarrow>
          if num_final ns
          then (case put_value (JNum (rev acc)) ps of None \<Rightarrow> None | Some ps' \<Rightarrow> idle_step c ps')
          else None)"
| "char_step (InLiteral [] v, ps) c = None"
| "char_step (InLiteral (x # xs) v, ps) c =
     (if c \<noteq> x then None
      else if xs = [] then map_option (Pair Idle) (put_value v ps)
      else Some (InLiteral xs v, ps))"

fun run_chars :: "lex \<times> pstate \<Rightarrow> string \<Rightarrow> (lex \<times> pstate) option" where
  "run_chars s [] = Some s"
| "run_chars s (c # cs) = (case char_step s c of None \<Rightarrow> None | Some s' \<Rightarrow> run_chars s' cs)"

fun finish :: "lex \<times> pstate \<Rightarrow> js_error + jsval" where
  "finish (Idle, (Finished v, st)) = Inr v"
| "finish (InNumber ns acc, ps) =
     (if num_final ns
      then (case put_value (JNum (rev acc)) ps of
              Some (Finished v, st) \<Rightarrow> Inr v
            | _ \<Rightarrow> Inl SyntaxError)
      else Inl SyntaxError)"
| "finish s = Inl SyntaxError"

definition JSON_parse :: "string \<Rightarrow> js_error + jsval" where
  "JSON_parse text =
     (case run_chars (Idle, (ExpValue, [])) text of
        None \<Rightarrow> Inl SyntaxError
      | Some s \<Rightarrow> finish s)"


section \<open>Console, input and environment\<close>

text \<open>The menu nodes: \<open>mainMenu\<close>, \<open>sepoliaToHoleskyMenu\<close>, \<open>holeskyToSepoliaMenu\<close>.\<close>

datatype node = Root | SepoliaToHolesky | HoleskyToSepolia

text \<open>The texts given to \<open>rl.question\<close>.\<close>

datatype prompt = P_Empty | P_MainChoice | P_SubChoice | P_UpdateYN

text \<open>
  One constructor for every \<open>console.log\<close> of \<open>index.js\<close>, with the values its template
  interpolates; \<open>L_Table\<close> is the rendered table of \<open>formatVersionChanges\<close>, given by its
  rows (version, date, changes).
\<close>

datatype line =
    L_FetchVersionsFailed nat
  | L_RateLimit
  | L_VersionFileNotFound
  | L_ErrorFetchingVersions js_error
  | L_CheckNetwork
  | L_FetchFilesFailed nat
  | L_ErrorFetchingFiles js_error
  | L_Skipping jsval
  | L_Downloaded jsval
  | L_FailedDownload jsval nat
  | L_ErrorDownloading jsval js_error
  | L_NoFilesFound
  | L_Downloading
  | L_UpdateComplete
  | L_NoVersionInfo
  | L_AvailableUpdates
  | L_Table "(jsval \<times> string \<times> jsval list) list"
  | L_Blank
  | L_Checking
  | L_UnableToCheck
  | L_PressEnterMain
  | L_NewVersion jsval
  | L_PleaseRestart
  | L_UpdateSkipped
  | L_Latest string
  | L_ErrorChecking js_error
  | L_Banner nat
  | L_MainMenu nat
  | L_SubMenu node nat
  | L_ErrorRunning string js_error
  | L_PressEnterMenu
  | L_ExitedWithCode string "int option"
  | L_ScriptNotFound string js_error
  | L_Goodbye
  | L_InvalidChoice
  | L_Starting

text \<open>What the process does to the outside, in order.\<close>

datatype event =
    Clear
  | Log line
  | LogError js_error
  | Question prompt
  | HttpGet jsval
  | FsAccess string
  | FsWriteFile string jsval
  | Spawn string
  | SetTimeout node nat
  | RlClose
  | ProcessExit int

text \<open>
  What the outside answers. \<open>axios.get\<close> resolves with a status and a body or rejects;
  \<open>fs.access\<close> and \<open>fs.writeFile\<close> succeed or reject; a spawned child emits \<open>error\<close>,
  or \<open>exit\<close> with a code (\<open>null\<close> when a signal killed it), or never ends. Every answer
  may depend on all that happened before. \<open>moment_format\<close> is
  \<open>moment(x).tz('Asia/Kolkata').format('YYYY-MM-DD HH:mm:ss z')\<close>.
\<close>

datatype http_result = Response nat jsval | Failure js_error

datatype child_result = LaunchError js_error | ChildExit "int option" | ChildRunning

record env =
  dirname :: string
  axios_get :: "event list \<Rightarrow> jsval \<Rightarrow> http_result"
  fs_access :: "event list \<Rightarrow> string \<Rightarrow> js_error option"
  fs_writeFile :: "event list \<Rightarrow> string \<Rightarrow> jsval \<Rightarrow> js_error option"
  child_run :: "event list \<Rightarrow> string \<Rightarrow> child_result"
  moment_format :: "jsval \<Rightarrow> js_error + string"

text \<open>
  The answers to the launcher's questions, in order: a line, or \<open>Closed\<close> when the
  readline interface is closed at that moment (\<open>rl.question\<close> then throws). When the
  list is empty the question is never answered.
\<close>

datatype answer = Line string | Closed

record world =
  answers :: "answer list"
  trace :: "event list"

definition emit :: "event list \<Rightarrow> world \<Rightarrow> world" where
  "emit es w = w\<lparr>trace := trace w @ es\<rparr>"

text \<open>An awaited call returns, throws, or never settles.\<close>

datatype 'a outcome = Done 'a | Raise js_error | Pending

definition await :: "world \<times> 'a outcome \<Rightarrow> ('a \<Rightarrow> world \<Rightarrow> world \<times> 'b outcome) \<Rightarrow> world \<times> 'b outcome" where
  "await r f =
     (case r of
        (w, Done x) \<Rightarrow> f x w
      | (w, Raise e) \<Rightarrow> (w, Raise e)
      | (w, Pending) \<Rightarrow> (w, Pending))"

definition try_catch :: "world \<times> 'a outcome \<Rightarrow> (js_error \<Rightarrow> world \<Rightarrow> world \<times> 'a outcome) \<Rightarrow> world \<times> 'a outcome" where
  "try_catch r h =
     (case r of
        (w, Raise e) \<Rightarrow> h e w
      | (w, Done x) \<Rightarrow> (w, Done x)
      | (w, Pending) \<Rightarrow> (w, Pending))"

text \<open>\<open>getUserInput\<close> (lines 229-235): the answer, trimmed.\<close>

definition getUserInput :: "prompt \<Rightarrow> world \<Rightarrow> world \<times> string outcome" where
  "getUserInput p w =
     (case answers w of
        [] \<Rightarrow> (emit [Question p] w, Pending)
      | Closed # rest \<Rightarrow> (w\<lparr>answers := rest\<rparr>, Raise ErrUseAfterClose)
      | Line s # rest \<Rightarrow> (emit [Question p] (w\<lparr>answers := rest\<rparr>), Done (trim s)))"

section \<open>Property access and array methods on remote data\<close>

text \<open>\<open>v.k\<close> for a data property \<open>k\<close>: a \<open>TypeError\<close> on \<open>null\<close> and \<open>undefined\<close>, the
  last member of that name on an object, \<open>undefined\<close> otherwise.\<close>

fun get_prop :: "jsval \<Rightarrow> string \<Rightarrow> js_error + jsval" where
  "get_prop JNull k = Inl TypeError"
| "get_prop JUndefined k = Inl TypeError"
| "get_prop (JObj kvs) k = Inr (case map_of (rev kvs) k of None \<Rightarrow> JUndefined | Some v \<Rightarrow> v)"
| "get_prop v k = Inr JUndefined"

fun map_throwing :: "('a \<Rightarrow> js_error + 'b) \<Rightarrow> 'a list \<Rightarrow> js_error + 'b list" where
  "map_throwing f [] = Inr []"
| "map_throwing f (x # xs) =
     (case f x of
        Inl e \<Rightarrow> Inl e
      | Inr y \<Rightarrow> (case map_throwing f xs of Inl e \<Rightarrow> Inl e | Inr ys \<Rightarrow> Inr (y # ys)))"

fun filter_throwing :: "('a \<Rightarrow> js_error + bool) \<Rightarrow> 'a list \<Rightarrow> js_error + 'a list" where
  "filter_throwing f [] = Inr []"
| "filter_throwing f (x # xs) =
     (case f x of
        Inl e \<Rightarrow> Inl e
      | Inr b \<Rightarrow>
          (case filter_throwing f xs of
             Inl e \<Rightarrow> Inl e
           | Inr ys \<Rightarrow> Inr (if b then x # ys else ys)))"

text \<open>\<open>data.map\<close> and \<open>data.filter\<close> exist on arrays only.\<close>

definition as_array :: "jsval \<Rightarrow> js_error + jsval list" where
  "as_array data = (case data of JArr xs \<Rightarrow> Inr xs | _ \<Rightarrow> Inl TypeError)"

section \<open>fetchVersionsJson (lines 27-60)\<close>

definition VERSIONS_URL :: string where
  "VERSIONS_URL = ''https://raw.githubusercontent.com/Ansh7473/UNION-AUTO_BOT/main/versions.json''"

text \<open>The callback of \<open>data.map\<close> (lines 42-46).\<close>

definition to_version_info :: "env \<Rightarrow> jsval \<Rightarrow> js_error + version_info" where
  "to_version_info en v =
     (case get_prop v ''VERSION'' of
        Inl e \<Rightarrow> Inl e
      | Inr ver \<Rightarrow>
          (case get_prop v ''UPDATE_DATE'' of
             Inl e \<Rightarrow> Inl e
           | Inr d \<Rightarrow>
               (case moment_format en d of
                  Inl e \<Rightarrow> Inl e
                | Inr date \<Rightarrow>
                    (case get_prop v ''CHANGES'' of
                       Inl e \<Rightarrow> Inl e
                     | Inr ch \<Rightarrow> Inr \<lparr>version = ver, update_date = date, changes = ch\<rparr>))))"

text \<open>The \<open>try\<close> block. A body that axios could not parse arrives as a string.\<close>

definition fetchVersionsJson_try :: "env \<Rightarrow> world \<Rightarrow> world \<times> version_info list outcome" where
  "fetchVersionsJson_try en w =
     (let w1 = emit [HttpGet (JStr VERSIONS_URL)] w in
      case axios_get en (trace w) (JStr VERSIONS_URL) of
        Failure error \<Rightarrow> (w1, Raise error)
      | Response status data \<Rightarrow>
          if status = 200 then
            (case (case data of JStr s \<Rightarrow> JSON_parse (cleanup s) | _ \<Rightarrow> Inr data) of
               Inl error \<Rightarrow> (w1, Raise error)
             | Inr parsed \<Rightarrow>
                 (case as_array parsed of
                    Inl error \<Rightarrow> (w1, Raise error)
                  | Inr items \<Rightarrow>
                      (case map_throwing (to_version_info en) items of
                         Inl error \<Rightarrow> (w1, Raise error)
                       | Inr vs \<Rightarrow> (w1, Done vs))))
          else
            (emit ([Log (L_FetchVersionsFailed status)]
                   @ (if status = 403 then [Log L_RateLimit] else [])
                   @ (if status = 404 then [Log L_VersionFileNotFound] else [])) w1,
             Done []))"

text \<open>The \<open>catch\<close> block (lines 53-59).\<close>

definition fetchVersionsJson_catch :: "js_error \<Rightarrow> world \<Rightarrow> world \<times> version_info list outcome" where
  "fetchVersionsJson_catch error w =
     (emit ([Log (L_ErrorFetchingVersions error)]
            @ (if error_code error = Some ''ECONNREFUSED'' \<or> error_code error = Some ''ETIMEDOUT''
               then [Log L_CheckNetwork] else [])) w,
      Done [])"

definition fetchVersionsJson :: "env \<Rightarrow> world \<Rightarrow> world \<times> version_info list outcome" where
  "fetchVersionsJson en w = try_catch (fetchVersionsJson_try en w) fetchVersionsJson_catch"

section \<open>fetchRepoFiles, downloadFile, updateFiles (lines 62-121)\<close>

definition CONTENTS_URL :: string where
  "CONTENTS_URL = ''https://api.github.com/repos/Ansh7473/UNION-AUTO_BOT/contents/''"

definition EXCLUDED_FILES :: "string list" where
  "EXCLUDED_FILES = [''private_keys.txt'']"

record remote_file =
  name :: jsval
  download_url :: jsval

definition is_file :: "jsval \<Rightarrow> js_error + bool" where
  "is_file item = (case get_prop item ''type'' of Inl e \<Rightarrow> Inl e | Inr t \<Rightarrow> Inr (t = JStr ''file''))"

definition to_remote_file :: "jsval \<Rightarrow> js_error + remote_file" where
  "to_remote_file item =
     (case get_prop item ''name'' of
        Inl e \<Rightarrow> Inl e
      | Inr n \<Rightarrow>
          (case get_prop item ''download_url'' of
             Inl e \<Rightarrow> Inl e
           | Inr u \<Rightarrow> Inr \<lparr>name = n, download_url = u\<rparr>))"

definition fetchRepoFiles_try :: "env \<Rightarrow> world \<Rightarrow> world \<times> remote_file list outcome" where
  "fetchRepoFiles_try en w =
     (let w1 = emit [HttpGet (JStr CONTENTS_URL)] w in
      case axios_get en (trace w) (JStr CONTENTS_URL) of
        Failure error \<Rightarrow> (w1, Raise error)
      | Response status data \<Rightarrow>
          if status = 200 then
            (case as_array data of
               Inl error \<Rightarrow> (w1, Raise error)
             | Inr items \<Rightarrow>
                 (case filter_throwing is_file items of
                    Inl error \<Rightarrow> (w1, Raise error)
                  | Inr kept \<Rightarrow>
                      (case map_throwing to_remote_file kept of
                         Inl error \<Rightarrow> (w1, Raise error)
                       | Inr files \<Rightarrow> (w1, Done files))))
          else (emit [Log (L_FetchFilesFailed status)] w1, Done []))"

definition fetchRepoFiles :: "env \<Rightarrow> world \<Rightarrow> world \<times> remote_file list outcome" where
  "fetchRepoFiles en w =
     try_catch (fetchRepoFiles_try en w) (\<lambda>error w'. (emit [Log (L_ErrorFetchingFiles error)] w', Done []))"

text \<open>
  \<open>path.join\<close> of Node, in its POSIX form, on two arguments: the arguments that are not
  empty are joined with a separator and the result is normalised. Normalising drops
  empty segments and \<open>.\<close>, lets \<open>..\<close> remove the segment before it (or keeps it, in a
  relative path that has nothing left to remove), and keeps a leading and a trailing
  separator.
\<close>

fun split_on :: "char \<Rightarrow> string \<Rightarrow> string list" where
  "split_on sep [] = [[]]"
| "split_on sep (c # cs) =
     (if c = sep then [] # split_on sep cs
      else (case split_on sep cs of [] \<Rightarrow> [[c]] | p # ps \<Rightarrow> (c # p) # ps))"

fun join_segments :: "string list \<Rightarrow> string" where
  "join_segments [] = []"
| "join_segments [s] = s"
| "join_segments (s # t # ss) = s @ ''/'' @ join_segments (t # ss)"

text \<open>\<open>normalizeString\<close>: \<open>acc\<close> holds the segments kept so far, the last one first.\<close>

fun normalize_segments :: "bool \<Rightarrow> string list \<Rightarrow> string list \<Rightarrow> string list" where
  "normalize_segments allowAboveRoot acc [] = rev acc"
| "normalize_segments allowAboveRoot acc (seg # segs) =
     (if seg = [] \<or> seg = ''.'' then normalize_segments allowAboveRoot acc segs
      else if seg = ''..'' then
        (case acc of
           lastSeg # earlier \<Rightarrow>
             if lastSeg \<noteq> ''..'' then normalize_segments allowAboveRoot earlier segs
             else if allowAboveRoot then normalize_segments allowAboveRoot (seg # acc) segs
             else normalize_segments allowAboveRoot acc segs
         | [] \<Rightarrow>
             if allowAboveRoot then normalize_segments allowAboveRoot [seg] segs
             else normalize_segments allowAboveRoot [] segs)
      else normalize_segments allowAboveRoot (seg # acc) segs)"

definition normalize :: "string \<Rightarrow> string" where
  "normalize path =
     (if path = [] then ''.''
      else
        (let isAbsolute = (hd path = CHR ''/'');
             trailingSeparator = (last path = CHR ''/'');
             body = join_segments (normalize_segments (\<not> isAbsolute) [] (split_on CHR ''/'' path))
         in if body = [] then (if isAbsolute then ''/'' else if trailingSeparator then ''./'' else ''.'')
            else (if isAbsolute then ''/'' else []) @ body
                 @ (if trailingSeparator then ''/'' else [])))"

definition join_paths :: "string \<Rightarrow> string \<Rightarrow> string" where
  "join_paths a b =
     (let joined = (if a = [] then b else if b = [] then a else a @ ''/'' @ b)
      in if joined = [] then ''.'' else normalize joined)"

text \<open>\<open>path.join(__dirname, n)\<close>: a \<open>TypeError\<close> unless \<open>n\<close> is a string.\<close>

definition path_join :: "string \<Rightarrow> jsval \<Rightarrow> js_error + string" where
  "path_join dir n = (case n of JStr s \<Rightarrow> Inr (join_paths dir s) | _ \<Rightarrow> Inl TypeError)"

text \<open>The \<open>try\<close> block of \<open>downloadFile\<close> (lines 92-102).\<close>

definition downloadFile_try :: "env \<Rightarrow> remote_file \<Rightarrow> world \<Rightarrow> world \<times> unit outcome" where
  "downloadFile_try en file w =
     (let w1 = emit [HttpGet (download_url file)] w in
      case axios_get en (trace w) (download_url file) of
        Failure error \<Rightarrow> (w1, Raise error)
      | Response status data \<Rightarrow>
          if status = 200 then
            (case path_join (dirname en) (name file) of
               Inl error \<Rightarrow> (w1, Raise error)
             | Inr p \<Rightarrow>
                 (let w2 = emit [FsWriteFile p data] w1 in
                  case fs_writeFile en (trace w1) p data of
                    Some error \<Rightarrow> (w2, Raise error)
                  | None \<Rightarrow> (emit [Log (L_Downloaded (name file))] w2, Done ())))
          else (emit [Log (L_FailedDownload (name file) status)] w1, Done ()))"

definition downloadFile :: "env \<Rightarrow> remote_file \<Rightarrow> world \<Rightarrow> world \<times> unit outcome" where
  "downloadFile en file w =
     (if name file \<in> set (map JStr EXCLUDED_FILES)
      then (emit [Log (L_Skipping (name file))] w, Done ())
      else try_catch (downloadFile_try en file w)
             (\<lambda>error w'. (emit [Log (L_ErrorDownloading (name file) error)] w', Done ())))"

text \<open>The loop \<open>for (const file of files) await downloadFile(file)\<close>: an error thrown by
  one call would end it.\<close>

fun download_loop :: "env \<Rightarrow> remote_file list \<Rightarrow> world \<Rightarrow> world \<times> unit outcome" where
  "download_loop en [] w = (w, Done ())"
| "download_loop en (file # files) w =
     await (downloadFile en file w) (\<lambda>_ w'. download_loop en files w')"

definition updateFiles :: "env \<Rightarrow> world \<Rightarrow> world \<times> bool outcome" where
  "updateFiles en w =
     await (fetchRepoFiles en w) (\<lambda>files w1.
       if files = [] then (emit [Log L_NoFilesFound] w1, Done False)
       else await (download_loop en files (emit [Log L_Downloading] w1))
              (\<lambda>_ w2. (emit [Log L_UpdateComplete] w2, Done True)))"


section \<open>formatVersionChanges and checkVersion (lines 123-211)\<close>

text \<open>A row of the table: \<open>version.changes.map\<close> throws unless \<open>changes\<close> is an array.\<close>

definition table_row :: "version_info \<Rightarrow> js_error + jsval \<times> string \<times> jsval list" where
  "table_row v =
     (case as_array (changes v) of
        Inl e \<Rightarrow> Inl e
      | Inr cs \<Rightarrow> Inr (version v, update_date v, cs))"

definition formatVersionChanges :: "version_info list \<Rightarrow> world \<Rightarrow> world \<times> unit outcome" where
  "formatVersionChanges versions w =
     (if versions = [] then (emit [Log L_NoVersionInfo] w, Done ())
      else
        (case map_throwing table_row versions of
           Inl e \<Rightarrow> (w, Raise e)
         | Inr rows \<Rightarrow> (emit [Log L_AvailableUpdates, Log (L_Table rows), Log L_Blank] w, Done ())))"

text \<open>Lines 160-181: sort, take \<open>versions[0]\<close>, compare with the local version. The
  result is the sorted array, the latest entry and \<open>isLatest\<close>.\<close>

definition latest_check :: "version_info list \<Rightarrow> js_error + version_info list \<times> version_info \<times> bool" where
  "latest_check versions =
     (case js_sort comparator versions of
        Inl e \<Rightarrow> Inl e
      | Inr sorted_versions \<Rightarrow>
          (case sorted_versions of
             [] \<Rightarrow> Inl TypeError
           | latestVersion # _ \<Rightarrow>
               (case version_parts (JStr CURRENT_VERSION) of
                  Inl e \<Rightarrow> Inl e
                | Inr currentVersionParts \<Rightarrow>
                    (case version_parts (version latestVersion) of
                       Inl e \<Rightarrow> Inl e
                     | Inr latestVersionParts \<Rightarrow>
                         Inr (sorted_versions, latestVersion,
                              isLatest_loop currentVersionParts latestVersionParts [0..<3])))))"

text \<open>\<open>console.log(...); console.log('Press Enter to return to the main menu...');
  await getUserInput(''); return b\<close>.\<close>

definition press_enter_main :: "line list \<Rightarrow> bool \<Rightarrow> world \<Rightarrow> world \<times> bool outcome" where
  "press_enter_main ls b w =
     await (getUserInput P_Empty (emit (map Log (ls @ [L_PressEnterMain])) w)) (\<lambda>_ w'. (w', Done b))"

text \<open>The \<open>try\<close> block of \<open>checkVersion\<close> (lines 152-204).\<close>

definition checkVersion_try :: "env \<Rightarrow> world \<Rightarrow> world \<times> bool outcome" where
  "checkVersion_try en w =
     await (fetchVersionsJson en w) (\<lambda>versions w1.
       if versions = [] then press_enter_main [L_UnableToCheck] True w1
       else
         (case latest_check versions of
            Inl e \<Rightarrow> (w1, Raise e)
          | Inr (sorted_versions, latestVersion, isLatest) \<Rightarrow>
              if \<not> isLatest then
                await (formatVersionChanges sorted_versions
                         (emit [Log (L_NewVersion (version latestVersion))] w1)) (\<lambda>_ w2.
                await (getUserInput P_UpdateYN w2) (\<lambda>answer w3.
                  if toLowerCase answer = ''y'' then
                    await (updateFiles en w3) (\<lambda>_ w4. press_enter_main [L_PleaseRestart] False w4)
                  else press_enter_main [L_UpdateSkipped] False w3))
              else press_enter_main [L_Latest CURRENT_VERSION] True w1))"

definition checkVersion :: "env \<Rightarrow> world \<Rightarrow> world \<times> bool outcome" where
  "checkVersion en w =
     try_catch (checkVersion_try en (emit [Log L_Checking] w))
       (\<lambda>error w'. press_enter_main [L_ErrorChecking error] True w')"

section \<open>The menus (lines 214-356)\<close>

text \<open>
  Where control goes when an invocation of a menu function has run as far as it can:
  a new invocation of a menu function that nobody awaits (called directly, from a
  timer or from a handler of the child), \<open>process.exit\<close>, the rejection of the
  invocation's own promise, a rejection nobody handles, or nothing (an answer or an
  exit of the child that never comes).
\<close>

datatype control = Goto node | Exit int | Rejected js_error | Unhandled js_error | Stuck

definition displayBanner :: "event list" where
  "displayBanner = [Clear, Log (L_Banner 0), Log (L_Banner 1), Log (L_Banner 2)]"

definition displayMainMenu :: "event list" where
  "displayMainMenu = [Log (L_MainMenu 0), Log (L_MainMenu 1), Log (L_MainMenu 2),
                      Log (L_MainMenu 3), Log (L_MainMenu 4)]"

definition displaySubMenu :: "node \<Rightarrow> event list" where
  "displaySubMenu n = Clear # map (\<lambda>i. Log (L_SubMenu n i)) [0..<6]"

text \<open>\<open>console.log(...); console.log('Press Enter to return to the menu...');
  getUserInput('').then(() => mainMenu())\<close> in a handler of the child: nobody awaits it.\<close>

definition handler_ack :: "line \<Rightarrow> world \<Rightarrow> world \<times> control" where
  "handler_ack l w =
     (case getUserInput P_Empty (emit [Log l, Log L_PressEnterMenu] w) of
        (w', Done _) \<Rightarrow> (w', Goto Root)
      | (w', Raise e) \<Rightarrow> (w', Unhandled e)
      | (w', Pending) \<Rightarrow> (w', Stuck))"

text \<open>\<open>runScript\<close> (lines 237-264). The script name is a constant of the program, a plain
  file name, and \<open>__dirname\<close> is an absolute normalised path, so \<open>path.join\<close> is the
  directory, a separator and the name. \<open>spawn\<close> itself does not
  throw: a child that cannot be launched emits \<open>error\<close> (and then no \<open>exit\<close>).\<close>

definition runScript :: "env \<Rightarrow> string \<Rightarrow> world \<Rightarrow> world \<times> control" where
  "runScript en scriptName w =
     (let scriptPath = dirname en @ ''/'' @ scriptName;
          w1 = emit [FsAccess scriptPath] w in
      case fs_access en (trace w) scriptPath of
        Some error \<Rightarrow>
          (case getUserInput P_Empty
                  (emit [Log (L_ScriptNotFound scriptName error), Log L_PressEnterMenu] w1) of
             (w', Done _) \<Rightarrow> (w', Goto Root)
           | (w', Raise e) \<Rightarrow> (w', Rejected e)
           | (w', Pending) \<Rightarrow> (w', Stuck))
      | None \<Rightarrow>
          (let w2 = emit [Spawn scriptPath] w1 in
           case child_run en (trace w1) scriptPath of
             LaunchError error \<Rightarrow> handler_ack (L_ErrorRunning scriptName error) w2
           | ChildExit code \<Rightarrow>
               if code \<noteq> Some 0 then handler_ack (L_ExitedWithCode scriptName code) w2
               else (w2, Goto Root)
           | ChildRunning \<Rightarrow> (w2, Stuck)))"

definition invalid_choice :: "node \<Rightarrow> world \<Rightarrow> world \<times> control" where
  "invalid_choice n w = (emit [Log L_InvalidChoice, SetTimeout n 1500] w, Goto n)"

definition sepoliaToHoleskyMenu :: "env \<Rightarrow> world \<Rightarrow> world \<times> control" where
  "sepoliaToHoleskyMenu en w =
     (case getUserInput P_SubChoice (emit (displaySubMenu SepoliaToHolesky) w) of
        (w', Raise e) \<Rightarrow> (w', Rejected e)
      | (w', Pending) \<Rightarrow> (w', Stuck)
      | (w', Done token) \<Rightarrow>
          if token = ''1'' then runScript en ''SepoliaToHoleskyEth.js'' w'
          else if token = ''2'' then runScript en ''SepoliaToHoleskyLinkTransfer.js'' w'
          else if token = ''3'' then runScript en ''SepoliaToHoleskyEurcTransfer.js'' w'
          else if token = ''4'' then runScript en ''SepoliaToHoleskyUsdcTransfer.js'' w'
          else if token = ''5'' then (w', Goto Root)
          else invalid_choice SepoliaToHolesky w')"

definition holeskyToSepoliaMenu :: "env \<Rightarrow> world \<Rightarrow> world \<times> control" where
  "holeskyToSepoliaMenu en w =
     (case getUserInput P_SubChoice (emit (displaySubMenu HoleskyToSepolia) w) of
        (w', Raise e) \<Rightarrow> (w', Rejected e)
      | (w', Pending) \<Rightarrow> (w', Stuck)
      | (w', Done token) \<Rightarrow>
          if token = ''1'' then runScript en ''HoleskyToSepoliaETH.js'' w'
          else if token = ''2'' then runScript en ''HoleskyToSepoliaLink.js'' w'
          else if token = ''3'' then runScript en ''HoleskyToSepoliaEurc.js'' w'
          else if token = ''4'' then runScript en ''HoleskyToSepoliaUsdc.js'' w'
          else if token = ''5'' then (w', Goto Root)
          else invalid_choice HoleskyToSepolia w')"

definition mainMenu :: "env \<Rightarrow> world \<Rightarrow> world \<times> control" where
  "mainMenu en w =
     (case getUserInput P_MainChoice (emit (displayBanner @ displayMainMenu) w) of
        (w', Raise e) \<Rightarrow> (w', Rejected e)
      | (w', Pending) \<Rightarrow> (w', Stuck)
      | (w', Done choice) \<Rightarrow>
          if choice = ''1'' then sepoliaToHoleskyMenu en w'
          else if choice = ''2'' then holeskyToSepoliaMenu en w'
          else if choice = ''3'' then
            (case checkVersion en w' of
               (w'', Done _) \<Rightarrow> (w'', Goto Root)
             | (w'', Raise e) \<Rightarrow> (w'', Rejected e)
             | (w'', Pending) \<Rightarrow> (w'', Stuck))
          else if choice = ''4'' then (emit [Log L_Goodbye, RlClose, ProcessExit 0] w', Exit 0)
          else invalid_choice Root w')"

fun invoke :: "env \<Rightarrow> node \<Rightarrow> world \<Rightarrow> world \<times> control" where
  "invoke en Root w = mainMenu en w"
| "invoke en SepoliaToHolesky w = sepoliaToHoleskyMenu en w"
| "invoke en HoleskyToSepolia w = holeskyToSepoliaMenu en w"


section \<open>Running the launcher\<close>

text \<open>How a run ends: \<open>process.exit\<close> with a code, a promise rejection that nobody
  handles, or waiting for input (or for a child) that never comes.\<close>

datatype final = Exited int | UnhandledRejection js_error | Waiting

subsection \<open>Every invocation of a menu consumes an answer\<close>

lemma answers_emit [simp]: "answers (emit es w) = answers w"
  by (simp add: emit_def)

lemma trace_emit [simp]: "trace (emit es w) = trace w @ es"
  by (simp add: emit_def)

lemma getUserInput_le: "length (answers (fst (getUserInput p w))) \<le> length (answers w)"
  by (simp add: getUserInput_def split: list.splits answer.splits)

lemma getUserInput_Done:
  "getUserInput p w = (w', Done x) \<Longrightarrow> length (answers w') < length (answers w)"
  by (auto simp: getUserInput_def split: list.splits answer.splits)

lemma await_le:
  assumes "length (answers (fst r)) \<le> n"
    and "\<And>x w. length (answers w) \<le> n \<Longrightarrow> length (answers (fst (f x w))) \<le> n"
  shows "length (answers (fst (await r f))) \<le> n"
  using assms by (cases r) (auto simp: await_def split: outcome.splits)

lemma try_catch_le:
  assumes "length (answers (fst r)) \<le> n"
    and "\<And>e w. length (answers w) \<le> n \<Longrightarrow> length (answers (fst (h e w))) \<le> n"
  shows "length (answers (fst (try_catch r h))) \<le> n"
  using assms by (cases r) (auto simp: try_catch_def split: outcome.splits)

lemma fetchVersionsJson_try_answers: "answers (fst (fetchVersionsJson_try en w)) = answers w"
  by (simp add: fetchVersionsJson_try_def Let_def split: http_result.splits sum.splits)

lemma fetchVersionsJson_answers: "answers (fst (fetchVersionsJson en w)) = answers w"
proof -
  obtain w1 r where r: "fetchVersionsJson_try en w = (w1, r)" by (cases "fetchVersionsJson_try en w")
  with fetchVersionsJson_try_answers [of en w] have "answers w1 = answers w" by simp
  with r show ?thesis
    by (cases r) (simp_all add: fetchVersionsJson_def try_catch_def fetchVersionsJson_catch_def)
qed

lemma fetchRepoFiles_try_answers: "answers (fst (fetchRepoFiles_try en w)) = answers w"
  by (simp add: fetchRepoFiles_try_def Let_def split: http_result.splits sum.splits)

lemma fetchRepoFiles_answers: "answers (fst (fetchRepoFiles en w)) = answers w"
proof -
  obtain w1 r where r: "fetchRepoFiles_try en w = (w1, r)" by (cases "fetchRepoFiles_try en w")
  with fetchRepoFiles_try_answers [of en w] have "answers w1 = answers w" by simp
  with r show ?thesis
    by (cases r) (simp_all add: fetchRepoFiles_def try_catch_def)
qed

lemma downloadFile_try_answers: "answers (fst (downloadFile_try en f w)) = answers w"
  by (simp add: downloadFile_try_def Let_def split: http_result.splits sum.splits option.splits)

lemma downloadFile_answers: "answers (fst (downloadFile en f w)) = answers w"
proof -
  obtain w1 r where r: "downloadFile_try en f w = (w1, r)" by (cases "downloadFile_try en f w")
  with downloadFile_try_answers [of en f w] have "answers w1 = answers w" by simp
  with r show ?thesis
    by (cases r) (simp_all add: downloadFile_def try_catch_def)
qed

lemma download_loop_answers: "answers (fst (download_loop en fs w)) = answers w"
proof (induction fs arbitrary: w)
  case Nil
  show ?case by simp
next
  case (Cons f fs)
  obtain w1 r where r: "downloadFile en f w = (w1, r)" by (cases "downloadFile en f w")
  with downloadFile_answers [of en f w] have "answers w1 = answers w" by simp
  with r Cons show ?case by (cases r) (simp_all add: await_def)
qed

lemma updateFiles_le: "length (answers (fst (updateFiles en w))) \<le> length (answers w)"
  unfolding updateFiles_def
  by (rule await_le) (auto simp: fetchRepoFiles_answers download_loop_answers intro!: await_le)

lemma formatVersionChanges_answers: "answers (fst (formatVersionChanges vs w)) = answers w"
  by (simp add: formatVersionChanges_def split: sum.splits)

lemma press_enter_main_le:
  "length (answers w) \<le> n \<Longrightarrow> length (answers (fst (press_enter_main ls b w))) \<le> n"
  unfolding press_enter_main_def
  by (rule await_le) (auto intro: order_trans [OF getUserInput_le])

lemma checkVersion_try_le: "length (answers (fst (checkVersion_try en w))) \<le> length (answers w)"
  unfolding checkVersion_try_def
  apply (rule await_le)
   apply (simp add: fetchVersionsJson_answers)
  apply (auto split: sum.splits intro!: press_enter_main_le await_le
      simp: formatVersionChanges_answers
      intro: order_trans [OF getUserInput_le] order_trans [OF updateFiles_le])
  done

lemma checkVersion_le: "length (answers (fst (checkVersion en w))) \<le> length (answers w)"
  unfolding checkVersion_def
  by (rule try_catch_le) (auto intro: order_trans [OF checkVersion_try_le] press_enter_main_le)


lemma handler_ack_le: "length (answers (fst (handler_ack l w))) \<le> length (answers w)"
proof -
  obtain w1 r where r: "getUserInput P_Empty (emit [Log l, Log L_PressEnterMenu] w) = (w1, r)"
    by (cases "getUserInput P_Empty (emit [Log l, Log L_PressEnterMenu] w)")
  with getUserInput_le [of P_Empty "emit [Log l, Log L_PressEnterMenu] w"]
  have "length (answers w1) \<le> length (answers w)" by simp
  with r show ?thesis by (cases r) (simp_all add: handler_ack_def)
qed

lemma runScript_le: "length (answers (fst (runScript en s w))) \<le> length (answers w)"
proof (cases "fs_access en (trace w) (dirname en @ ''/'' @ s)")
  case (Some error)
  let ?w = "emit [Log (L_ScriptNotFound s error), Log L_PressEnterMenu]
              (emit [FsAccess (dirname en @ ''/'' @ s)] w)"
  obtain w1 r where r: "getUserInput P_Empty ?w = (w1, r)" by (cases "getUserInput P_Empty ?w")
  with getUserInput_le [of P_Empty ?w] have "length (answers w1) \<le> length (answers w)" by simp
  with r Some show ?thesis by (cases r) (simp_all add: runScript_def Let_def)
next
  case None
  then show ?thesis
    by (auto simp: runScript_def Let_def split: child_result.splits
        intro: order_trans [OF handler_ack_le])
qed

lemma invalid_choice_answers [simp]: "answers (fst (invalid_choice n w)) = answers w"
  by (simp add: invalid_choice_def)

lemma sepoliaToHoleskyMenu_less:
  assumes "sepoliaToHoleskyMenu en w = (w', Goto n)"
  shows "length (answers w') < length (answers w)"
proof -
  let ?w = "emit (displaySubMenu SepoliaToHolesky) w"
  obtain w1 r where r: "getUserInput P_SubChoice ?w = (w1, r)"
    by (cases "getUserInput P_SubChoice ?w")
  with assms obtain token where d: "r = Done token"
    by (cases r) (auto simp: sepoliaToHoleskyMenu_def)
  with r getUserInput_Done [of P_SubChoice ?w w1 token]
  have lt: "length (answers w1) < length (answers w)" by simp
  from assms r d have "w' = w1 \<or> (\<exists>s. w' = fst (runScript en s w1)) \<or> w' = fst (invalid_choice SepoliaToHolesky w1)"
    by (auto simp: sepoliaToHoleskyMenu_def split: if_splits) (metis fst_conv)+
  with lt show ?thesis
    by (auto intro: le_less_trans [OF runScript_le])
qed

lemma holeskyToSepoliaMenu_less:
  assumes "holeskyToSepoliaMenu en w = (w', Goto n)"
  shows "length (answers w') < length (answers w)"
proof -
  let ?w = "emit (displaySubMenu HoleskyToSepolia) w"
  obtain w1 r where r: "getUserInput P_SubChoice ?w = (w1, r)"
    by (cases "getUserInput P_SubChoice ?w")
  with assms obtain token where d: "r = Done token"
    by (cases r) (auto simp: holeskyToSepoliaMenu_def)
  with r getUserInput_Done [of P_SubChoice ?w w1 token]
  have lt: "length (answers w1) < length (answers w)" by simp
  from assms r d have "w' = w1 \<or> (\<exists>s. w' = fst (runScript en s w1)) \<or> w' = fst (invalid_choice HoleskyToSepolia w1)"
    by (auto simp: holeskyToSepoliaMenu_def split: if_splits) (metis fst_conv)+
  with lt show ?thesis
    by (auto intro: le_less_trans [OF runScript_le])
qed

lemma sepoliaToHoleskyMenu_le: "length (answers (fst (sepoliaToHoleskyMenu en w))) \<le> length (answers w)"
proof -
  let ?w = "emit (displaySubMenu SepoliaToHolesky) w"
  obtain w1 r where r: "getUserInput P_SubChoice ?w = (w1, r)"
    by (cases "getUserInput P_SubChoice ?w")
  with getUserInput_le [of P_SubChoice ?w] have "length (answers w1) \<le> length (answers w)" by simp
  with r show ?thesis
    by (cases r) (auto simp: sepoliaToHoleskyMenu_def intro: order_trans [OF runScript_le])
qed

lemma holeskyToSepoliaMenu_le: "length (answers (fst (holeskyToSepoliaMenu en w))) \<le> length (answers w)"
proof -
  let ?w = "emit (displaySubMenu HoleskyToSepolia) w"
  obtain w1 r where r: "getUserInput P_SubChoice ?w = (w1, r)"
    by (cases "getUserInput P_SubChoice ?w")
  with getUserInput_le [of P_SubChoice ?w] have "length (answers w1) \<le> length (answers w)" by simp
  with r show ?thesis
    by (cases r) (auto simp: holeskyToSepoliaMenu_def intro: order_trans [OF runScript_le])
qed

lemma mainMenu_less:
  assumes "mainMenu en w = (w', Goto n)"
  shows "length (answers w') < length (answers w)"
proof -
  let ?w = "emit (displayBanner @ displayMainMenu) w"
  obtain w1 r where r: "getUserInput P_MainChoice ?w = (w1, r)"
    by (cases "getUserInput P_MainChoice ?w")
  with assms obtain choice where d: "r = Done choice"
    by (cases r) (auto simp: mainMenu_def)
  with r getUserInput_Done [of P_MainChoice ?w w1 choice]
  have lt: "length (answers w1) < length (answers w)" by simp
  from assms r d have "w' = fst (sepoliaToHoleskyMenu en w1) \<or> w' = fst (holeskyToSepoliaMenu en w1)
      \<or> w' = fst (checkVersion en w1) \<or> w' = fst (invalid_choice Root w1)"
    by (auto simp: mainMenu_def split: if_splits prod.splits outcome.splits)
  with lt show ?thesis
    using sepoliaToHoleskyMenu_le [of en w1] holeskyToSepoliaMenu_le [of en w1]
      checkVersion_le [of en w1] by auto
qed

lemma invoke_less: "invoke en n w = (w', Goto n') \<Longrightarrow> length (answers w') < length (answers w)"
  by (cases n) (auto dest: mainMenu_less sepoliaToHoleskyMenu_less holeskyToSepoliaMenu_less)

text \<open>
  The event loop: run the invocation of a menu function, then the invocation it
  scheduled. \<open>first\<close> marks the invocation started by the last lines of \<open>index.js\<close>,
  \<open>mainMenu().catch(err => { console.error("Fatal error:", err); process.exit(1) })\<close>.
\<close>

function run :: "env \<Rightarrow> bool \<Rightarrow> node \<Rightarrow> world \<Rightarrow> world \<times> final" where
  "run en first n w =
     (case invoke en n w of
        (w', Goto n') \<Rightarrow> run en False n' w'
      | (w', Exit c) \<Rightarrow> (w', Exited c)
      | (w', Rejected e) \<Rightarrow>
          if first then (emit [LogError e, ProcessExit 1] w', Exited 1)
          else (w', UnhandledRejection e)
      | (w', Unhandled e) \<Rightarrow> (w', UnhandledRejection e)
      | (w', Stuck) \<Rightarrow> (w', Waiting))"
  by pat_completeness auto
termination
  by (relation "measure (\<lambda>(en, first, n, w). length (answers w))") (auto dest: invoke_less [OF sym])

definition main :: "env \<Rightarrow> world \<Rightarrow> world \<times> final" where
  "main en w = run en True Root (emit [Log L_Starting] w)"

declare run.simps [simp del]

section \<open>Basic facts about awaiting, catching and the trace\<close>

lemma await_Done [simp]: "await (w, Done x) f = f x w"
  by (simp add: await_def)

lemma await_not_Done [simp]: "await (w, Raise e) f = (w, Raise e)" "await (w, Pending) f = (w, Pending)"
  by (simp_all add: await_def)

lemma try_catch_simps [simp]:
  "try_catch (w, Raise e) h = h e w"
  "try_catch (w, Done x) h = (w, Done x)"
  "try_catch (w, Pending) h = (w, Pending)"
  by (simp_all add: try_catch_def)

lemma try_catch_no_raise: "(\<And>e. snd r \<noteq> Raise e) \<Longrightarrow> try_catch r h = r"
  by (cases r) (auto simp: try_catch_def split: outcome.splits)

lemma emit_emit [simp]: "emit es' (emit es w) = emit (es @ es') w"
  by (simp add: emit_def)

lemma emit_Nil [simp]: "emit [] w = w"
  by (simp add: emit_def)

text \<open>Every function of the launcher only adds to the trace.\<close>

lemma prefix_emit: "prefix t (trace w) \<Longrightarrow> prefix t (trace (emit es w))"
  by (simp add: prefix_prefix)

lemma prefix_getUserInput: "prefix t (trace w) \<Longrightarrow> prefix t (trace (fst (getUserInput p w)))"
  by (auto simp: getUserInput_def prefix_prefix split: list.splits answer.splits)

lemma await_prefix:
  assumes "prefix t (trace (fst r))"
    and "\<And>x w. prefix t (trace w) \<Longrightarrow> prefix t (trace (fst (f x w)))"
  shows "prefix t (trace (fst (await r f)))"
  using assms by (cases r) (auto simp: await_def split: outcome.splits)

lemma try_catch_prefix:
  assumes "prefix t (trace (fst r))"
    and "\<And>e w. prefix t (trace w) \<Longrightarrow> prefix t (trace (fst (h e w)))"
  shows "prefix t (trace (fst (try_catch r h)))"
  using assms by (cases r) (auto simp: try_catch_def split: outcome.splits)

lemma prefix_press_enter_main:
  "prefix t (trace w) \<Longrightarrow> prefix t (trace (fst (press_enter_main ls b w)))"
  unfolding press_enter_main_def
  by (rule await_prefix) (auto intro!: prefix_getUserInput prefix_emit)

lemma prefix_fetchRepoFiles:
  "prefix t (trace w) \<Longrightarrow> prefix t (trace (fst (fetchRepoFiles en w)))"
  unfolding fetchRepoFiles_def
  by (rule try_catch_prefix)
    (auto simp: fetchRepoFiles_try_def Let_def prefix_prefix split: http_result.splits sum.splits)

lemma prefix_downloadFile:
  "prefix t (trace w) \<Longrightarrow> prefix t (trace (fst (downloadFile en f w)))"
  unfolding downloadFile_def
  by (auto intro!: try_catch_prefix
      simp: downloadFile_try_def Let_def prefix_prefix split: http_result.splits sum.splits option.splits)

lemma prefix_download_loop:
  "prefix t (trace w) \<Longrightarrow> prefix t (trace (fst (download_loop en fs w)))"
proof (induction fs arbitrary: w)
  case Nil
  then show ?case by simp
next
  case (Cons f fs)
  then show ?case by (auto intro!: await_prefix prefix_downloadFile)
qed

lemma prefix_updateFiles:
  "prefix t (trace w) \<Longrightarrow> prefix t (trace (fst (updateFiles en w)))"
  unfolding updateFiles_def
  by (rule await_prefix)
    (auto intro!: prefix_fetchRepoFiles await_prefix prefix_download_loop prefix_emit)

lemma trim_digit_choices:
  "trim ''1'' = ''1''" "trim ''2'' = ''2''" "trim ''3'' = ''3''" "trim ''4'' = ''4''" "trim ''5'' = ''5''"
  by code_simp+

lemma JSON_parse_error: "JSON_parse t = Inl e \<Longrightarrow> e = SyntaxError"
proof -
  have "finish s = Inl e \<Longrightarrow> e = SyntaxError" for s
    by (induction s rule: finish.induct) (auto split: if_splits option.splits prod.splits expect.splits)
  then show "JSON_parse t = Inl e \<Longrightarrow> e = SyntaxError"
    by (auto simp: JSON_parse_def split: option.splits)
qed

section \<open>Environments and documents for examples\<close>

text \<open>A world with the given answers and nothing done yet; an environment where every
  request has the same result; one where the result depends on the address; one where
  \<open>fs.access\<close> and the child behave as given.\<close>

definition start_world :: "answer list \<Rightarrow> world" where
  "start_world as = \<lparr>answers = as, trace = []\<rparr>"

definition example_env :: "http_result \<Rightarrow> env" where
  "example_env r =
     \<lparr>dirname = ''/app'',
      axios_get = (\<lambda>_ _. r),
      fs_access = (\<lambda>_ _. None),
      fs_writeFile = (\<lambda>_ _ _. None),
      child_run = (\<lambda>_ _. ChildExit (Some 0)),
      moment_format = (\<lambda>_. Inr ''2025-05-01 05:30:00 IST'')\<rparr>"


definition example_host :: "js_error option \<Rightarrow> child_result \<Rightarrow> env" where
  "example_host access child =
     \<lparr>dirname = ''/app'',
      axios_get = (\<lambda>_ _. Failure (ExternalError (Some ''ECONNREFUSED'') ''connect ECONNREFUSED'')),
      fs_access = (\<lambda>_ _. access),
      fs_writeFile = (\<lambda>_ _ _. None),
      child_run = (\<lambda>_ _. child),
      moment_format = (\<lambda>_. Inr ''2025-05-01 05:30:00 IST'')\<rparr>"

definition ENOENT :: js_error where
  "ENOENT = ExternalError (Some ''ENOENT'') ''no such file or directory''"

text \<open>The object of one release in the version document and the record
  \<open>fetchVersionsJson\<close> makes of it; a record with a version only; JSON text: a string
  literal and the object of one release; an entry of the repository listing.\<close>

definition release :: "string \<Rightarrow> jsval" where
  "release s =
     JObj [(''VERSION'', JStr s), (''UPDATE_DATE'', JStr ''2025-05-01''),
           (''CHANGES'', JArr [JStr ''fixes''])]"

definition released :: "string \<Rightarrow> version_info" where
  "released s = \<lparr>version = JStr s, update_date = ''2025-05-01 05:30:00 IST'', changes = JArr [JStr ''fixes'']\<rparr>"

definition vinfo :: "string \<Rightarrow> version_info" where
  "vinfo s = \<lparr>version = JStr s, update_date = '''', changes = JArr []\<rparr>"

definition quoted :: "string \<Rightarrow> string" where
  "quoted s = CHR 0x22 # s @ [CHR 0x22]"

definition release_text :: "string \<Rightarrow> string" where
  "release_text v =
     ''{'' @ quoted ''VERSION'' @ '':'' @ quoted v @ '','' @ quoted ''UPDATE_DATE'' @ '':''
     @ quoted ''2025-05-01'' @ '','' @ quoted ''CHANGES'' @ '':['' @ quoted ''fixes'' @ '']}''"


section \<open>Version descriptors as the specification types them\<close>

text \<open>
  The specification's version descriptor has a version that is a dotted triple of
  non-negative integers and a list of change strings. \<open>decimal\<close> is a non-empty string of
  decimal digits whose value a JavaScript number holds exactly; \<open>triple_of\<close> reads the
  three integers of such a version, and pairs are ordered lexicographically.
\<close>

definition decimal :: "string \<Rightarrow> bool" where
  "decimal s = (s \<noteq> [] \<and> list_all is_digit s \<and> digits_val s < 2 ^ 53)"

definition triple_of :: "jsval \<Rightarrow> (int \<times> int \<times> int) option" where
  "triple_of v =
     (case v of
        JStr s \<Rightarrow>
          (case split_dot s of
             [a, b, c] \<Rightarrow>
               if decimal a \<and> decimal b \<and> decimal c
               then Some (digits_val a, digits_val b, digits_val c) else None
           | _ \<Rightarrow> None)
      | _ \<Rightarrow> None)"

definition is_array :: "jsval \<Rightarrow> bool" where
  "is_array v = (case v of JArr xs \<Rightarrow> True | _ \<Rightarrow> False)"

definition well_formed :: "version_info \<Rightarrow> bool" where
  "well_formed v = (triple_of (version v) \<noteq> None \<and> is_array (changes v))"

definition triple :: "version_info \<Rightarrow> int \<times> int \<times> int" where
  "triple v = the (triple_of (version v))"

subsection \<open>The comparator and the sort on well-formed descriptors\<close>

lemma digit_not_space: "is_digit c \<Longrightarrow> \<not> js_space c"
  by (auto simp: is_digit_def js_space_def)

lemma dropWhile_space_digits: "list_all is_digit s \<Longrightarrow> dropWhile js_space s = s"
  by (cases s) (auto simp: digit_not_space)

lemma trim_digits: "list_all is_digit s \<Longrightarrow> trim s = s"
proof -
  assume a: "list_all is_digit s"
  then have "list_all is_digit (rev s)" by (simp add: list_all_iff)
  with a show ?thesis by (simp add: trim_def dropWhile_space_digits)
qed

lemma Number_decimal: "decimal s \<Longrightarrow> Number s = Num (digits_val s)"
  by (cases s) (auto simp: decimal_def Number_def trim_digits)

lemma version_parts_triple:
  assumes "triple_of v = Some (a, b, c)"
  shows "version_parts v = Inr [Num a, Num b, Num c]"
  using assms
  by (auto simp: triple_of_def version_parts_def Number_decimal
      split: jsval.splits list.splits if_splits)

lemma idx3 [simp]:
  "idx [x, y, z] 0 = x" "idx [x, y, z] (Suc 0) = y" "idx [x, y, z] 2 = z"
  by (simp_all add: idx_def)

lemma upt3: "[0..<3] = [0, Suc 0, 2]"
  by (simp add: numeral_3_eq_3 numeral_2_eq_2 upt_rec)

lemma compare_loop_triples:
  "\<exists>k. compare_loop [Num a1, Num a2, Num a3] [Num b1, Num b2, Num b3] [0..<3] = Num k
     \<and> (0 < k \<longleftrightarrow> (a1, a2, a3) < (b1, b2, b3))"
  by (auto simp: upt3 less_prod_def)

lemma isLatest_loop_triples:
  "isLatest_loop [Num c1, Num c2, Num c3] [Num l1, Num l2, Num l3] [0..<3]
     \<longleftrightarrow> (l1, l2, l3) \<le> (c1, c2, c3)"
  by (auto simp: upt3 less_eq_prod_def)

lemma well_formed_triple:
  "well_formed v \<Longrightarrow> triple_of (version v) = Some (triple v)"
  by (auto simp: well_formed_def triple_def)

lemma comparator_well_formed:
  assumes "well_formed a" "well_formed b"
  shows "\<exists>k. comparator a b = Inr (Num k) \<and> (0 < k \<longleftrightarrow> triple a < triple b)"
proof -
  obtain a1 a2 a3 where ta: "triple a = (a1, a2, a3)" by (cases "triple a")
  obtain b1 b2 b3 where tb: "triple b = (b1, b2, b3)" by (cases "triple b")
  from assms ta tb have "version_parts (version a) = Inr [Num a1, Num a2, Num a3]"
    "version_parts (version b) = Inr [Num b1, Num b2, Num b3]"
    by (auto dest!: well_formed_triple intro: version_parts_triple)
  with compare_loop_triples [of a1 a2 a3 b1 b2 b3] ta tb show ?thesis
    by (simp add: comparator_def)
qed

abbreviation descending :: "version_info list \<Rightarrow> bool" where
  "descending vs \<equiv> sorted_wrt (\<lambda>a b. triple b \<le> triple a) vs"

lemma sort_insert_well_formed:
  assumes "well_formed x" "\<forall>y \<in> set ys. well_formed y" "descending ys"
  shows "\<exists>zs. sort_insert comparator x ys = Inr zs \<and> mset zs = add_mset x (mset ys) \<and> descending zs"
  using assms
proof (induction ys)
  case Nil
  then show ?case by simp
next
  case (Cons y ys)
  from Cons.prems obtain k where k: "comparator x y = Inr (Num k)" "0 < k \<longleftrightarrow> triple x < triple y"
    using comparator_well_formed [of x y] by auto
  show ?case
  proof (cases "0 < k")
    case True
    from Cons obtain zs where zs: "sort_insert comparator x ys = Inr zs"
      "mset zs = add_mset x (mset ys)" "descending zs" by auto
    from zs(2) have "set zs = insert x (set ys)"
      by (metis set_mset_add_mset_insert set_mset_mset)
    with True k Cons.prems zs show ?thesis by auto
  next
    case False
    with k Cons.prems show ?thesis by (auto intro: order_trans)
  qed
qed

lemma js_sort_well_formed:
  assumes "\<forall>v \<in> set vs. well_formed v"
  shows "\<exists>ys. js_sort comparator vs = Inr ys \<and> mset ys = mset vs \<and> descending ys"
  using assms
proof (induction vs)
  case Nil
  then show ?case by simp
next
  case (Cons v vs)
  then obtain ys where ys: "js_sort comparator vs = Inr ys" "mset ys = mset vs" "descending ys"
    by auto
  from ys(2) have "set ys = set vs" by (metis set_mset_mset)
  with Cons.prems ys sort_insert_well_formed [of v ys] show ?case by auto
qed

section \<open>What the version check reports\<close>

text \<open>The readline interface is open when the next question is asked.\<close>

definition readline_open :: "world \<Rightarrow> bool" where
  "readline_open w = (case answers w of Closed # rest \<Rightarrow> False | _ \<Rightarrow> True)"

lemma press_enter_main_open:
  assumes "readline_open w"
  shows "trace (fst (press_enter_main ls b w)) = trace w @ map Log (ls @ [L_PressEnterMain]) @ [Question P_Empty]"
    and "snd (press_enter_main ls b w) \<noteq> Raise e"
  using assms
  by (auto simp: press_enter_main_def readline_open_def getUserInput_def await_def
      split: list.splits answer.splits)

lemma table_rows_well_formed:
  "\<forall>v \<in> set vs. well_formed v \<Longrightarrow> \<exists>rows. map_throwing table_row vs = Inr rows"
  by (induction vs)
    (auto simp: table_row_def as_array_def well_formed_def is_array_def split: jsval.splits)

lemma local_triple: "triple_of (JStr CURRENT_VERSION) = Some (1, 0, 0)"
  by code_simp

lemma latest_check_well_formed:
  assumes "vs \<noteq> []" "\<forall>v \<in> set vs. well_formed v"
  shows "\<exists>ys. latest_check vs = Inr (ys, hd ys, triple (hd ys) \<le> (1, 0, 0))
           \<and> ys \<noteq> [] \<and> mset ys = mset vs \<and> descending ys"
proof -
  from js_sort_well_formed [OF assms(2)] obtain ys where
    ys: "js_sort comparator vs = Inr ys" "mset ys = mset vs" "descending ys" by auto
  from ys(2) assms(1) have ne: "ys \<noteq> []" by auto
  then obtain l ls where l: "ys = l # ls" by (cases ys) auto
  from ys(2) have "set ys = set vs" by (metis set_mset_mset)
  with assms(2) l have "well_formed l" by auto
  then have tl: "triple_of (version l) = Some (triple l)" by (rule well_formed_triple)
  obtain l1 l2 l3 where t: "triple l = (l1, l2, l3)" by (cases "triple l")
  from tl t have pl: "version_parts (version l) = Inr [Num l1, Num l2, Num l3]"
    by (auto intro: version_parts_triple)
  have pc: "version_parts (JStr CURRENT_VERSION) = Inr [Num 1, Num 0, Num 0]"
    by (rule version_parts_triple [OF local_triple])
  from ys l pl pc t isLatest_loop_triples [of 1 0 0 l1 l2 l3]
  have "latest_check vs = Inr (ys, hd ys, triple (hd ys) \<le> (1, 0, 0))"
    by (simp add: latest_check_def)
  with ne ys show ?thesis by blast
qed

lemma update_offer_prefix:
  assumes "readline_open w3"
  shows "prefix (trace w3 @ [Question P_UpdateYN])
    (trace (fst (await (getUserInput P_UpdateYN w3) (\<lambda>answer w4.
        if toLowerCase answer = ''y'' then
          await (updateFiles en w4) (\<lambda>_ w5. press_enter_main [L_PleaseRestart] False w5)
        else press_enter_main [L_UpdateSkipped] False w4))))"
proof (cases "answers w3")
  case Nil
  then show ?thesis by (simp add: getUserInput_def)
next
  case (Cons a rest)
  with assms obtain s where a: "a = Line s" by (cases a) (auto simp: readline_open_def)
  let ?w4 = "emit [Question P_UpdateYN] (w3\<lparr>answers := rest\<rparr>)"
  have t: "prefix (trace w3 @ [Question P_UpdateYN]) (trace ?w4)" by simp
  from Cons a have "getUserInput P_UpdateYN w3 = (?w4, Done (trim s))"
    by (simp add: getUserInput_def)
  then show ?thesis
    using t by (auto intro!: await_prefix prefix_updateFiles prefix_press_enter_main)
qed

text \<open>
  C1: for a non-empty list of well-formed version descriptors, \<open>checkVersion\<close> sorts
  them descending by the integer triple (major, minor, patch), compared left to right,
  and takes the first as the latest, which no other exceeds. It reports "up to date"
  exactly when the local triple (1, 0, 0) is at least the latest: then it prints that
  line and asks for Enter, and nothing else; otherwise it prints the new version and the
  table and asks whether to update.
\<close>

theorem checkVersion_reports_latest:
  assumes fetch: "fetchVersionsJson en (emit [Log L_Checking] w) = (w1, Done vs)"
    and ne: "vs \<noteq> []"
    and wf: "\<forall>v \<in> set vs. well_formed v"
    and ropen: "readline_open w"
  shows "\<exists>sorted_versions.
      latest_check vs = Inr (sorted_versions, hd sorted_versions, triple (hd sorted_versions) \<le> (1, 0, 0))
    \<and> triple_of (JStr CURRENT_VERSION) = Some (1, 0, 0)
    \<and> mset sorted_versions = mset vs
    \<and> descending sorted_versions
    \<and> (\<forall>v \<in> set vs. triple v \<le> triple (hd sorted_versions))
    \<and> (triple (hd sorted_versions) \<le> (1, 0, 0) \<longrightarrow>
          trace (fst (checkVersion en w))
            = trace w1 @ [Log (L_Latest CURRENT_VERSION), Log L_PressEnterMain, Question P_Empty])
    \<and> (\<not> triple (hd sorted_versions) \<le> (1, 0, 0) \<longrightarrow>
          (\<exists>rows. prefix
             (trace w1 @ [Log (L_NewVersion (version (hd sorted_versions))), Log L_AvailableUpdates,
                          Log (L_Table rows), Log L_Blank, Question P_UpdateYN])
             (trace (fst (checkVersion en w)))))"
proof -
  from latest_check_well_formed [OF ne wf] obtain ys where
    ys: "latest_check vs = Inr (ys, hd ys, triple (hd ys) \<le> (1, 0, 0))"
      "ys \<noteq> []" "mset ys = mset vs" "descending ys" by auto
  from ys(3) have sets: "set ys = set vs" by (metis set_mset_mset)
  have top: "\<forall>v \<in> set vs. triple v \<le> triple (hd ys)"
  proof
    fix v assume "v \<in> set vs"
    with sets have "v \<in> set ys" by simp
    with ys(2,4) show "triple v \<le> triple (hd ys)" by (cases ys) auto
  qed
  let ?w0 = "emit [Log L_Checking] w"
  from fetchVersionsJson_answers [of en ?w0] fetch have aw: "answers w1 = answers w" by simp
  with ropen have open1: "readline_open w1" by (simp add: readline_open_def)
  have latest: "trace (fst (checkVersion en w))
            = trace w1 @ [Log (L_Latest CURRENT_VERSION), Log L_PressEnterMain, Question P_Empty]"
    if "triple (hd ys) \<le> (1, 0, 0)"
  proof -
    from that ys(1) fetch ne
    have "checkVersion_try en ?w0 = press_enter_main [L_Latest CURRENT_VERSION] True w1"
      by (simp add: checkVersion_try_def)
    with press_enter_main_open [OF open1, of "[L_Latest CURRENT_VERSION]" True] show ?thesis
      by (simp add: checkVersion_def try_catch_no_raise)
  qed
  have offer: "\<exists>rows. prefix
             (trace w1 @ [Log (L_NewVersion (version (hd ys))), Log L_AvailableUpdates,
                          Log (L_Table rows), Log L_Blank, Question P_UpdateYN])
             (trace (fst (checkVersion en w)))"
    if "\<not> triple (hd ys) \<le> (1, 0, 0)"
  proof -
    from wf sets obtain rows where rows: "map_throwing table_row ys = Inr rows"
      using table_rows_well_formed [of ys] by auto
    let ?w3 = "emit [Log L_AvailableUpdates, Log (L_Table rows), Log L_Blank]
                 (emit [Log (L_NewVersion (version (hd ys)))] w1)"
    let ?t = "trace w1 @ [Log (L_NewVersion (version (hd ys))), Log L_AvailableUpdates,
                          Log (L_Table rows), Log L_Blank, Question P_UpdateYN]"
    from aw ropen have open3: "readline_open ?w3" by (simp add: readline_open_def)
    from that ys(1,2) fetch ne rows
    have "checkVersion_try en ?w0 = await (getUserInput P_UpdateYN ?w3) (\<lambda>answer w4.
        if toLowerCase answer = ''y'' then
          await (updateFiles en w4) (\<lambda>_ w5. press_enter_main [L_PleaseRestart] False w5)
        else press_enter_main [L_UpdateSkipped] False w4)"
      by (simp add: checkVersion_try_def formatVersionChanges_def)
    with update_offer_prefix [OF open3, of en]
    have "prefix ?t (trace (fst (checkVersion_try en ?w0)))" by simp
    then have "prefix ?t (trace (fst (checkVersion en w)))"
      unfolding checkVersion_def
      by (rule try_catch_prefix) (auto intro: prefix_press_enter_main)
    then show ?thesis by blast
  qed
  from ys top latest offer local_triple show ?thesis by blast
qed

lemma ex1_fetch:
  "fetchVersionsJson (example_env (Response 200 (JArr [release ''0.9.0'', release ''1.0.0''])))
      (emit [Log L_Checking] (start_world [Line []]))
   = (\<lparr>answers = [Line []], trace = [Log L_Checking, HttpGet (JStr VERSIONS_URL)]\<rparr>,
      Done [released ''0.9.0'', released ''1.0.0''])"
  by code_simp

lemma ex2_fetch:
  "fetchVersionsJson (example_env (Response 200 (JArr [release ''1.0.0'', release ''1.2.0''])))
      (emit [Log L_Checking] (start_world []))
   = (\<lparr>answers = [], trace = [Log L_Checking, HttpGet (JStr VERSIONS_URL)]\<rparr>,
      Done [released ''1.0.0'', released ''1.2.0''])"
  by code_simp

lemma ex_wf: "well_formed (released ''0.9.0'')" "well_formed (released ''1.0.0'')" "well_formed (released ''1.2.0'')"
  by code_simp+

lemma ex1_latest: "latest_check [released ''0.9.0'', released ''1.0.0'']
    = Inr ([released ''1.0.0'', released ''0.9.0''], released ''1.0.0'', True)"
  by code_simp

lemma ex2_latest: "latest_check [released ''1.0.0'', released ''1.2.0'']
    = Inr ([released ''1.2.0'', released ''1.0.0''], released ''1.2.0'', False)"
  by code_simp

lemma ex_triples: "triple (released ''1.0.0'') = (1, 0, 0)" "triple (released ''1.2.0'') = (1, 2, 0)"
  by code_simp+

text \<open>Local 1.0.0 against remote 0.9.0 and 1.0.0 is up to date; against remote 1.0.0 and
  1.2.0 the update is offered.\<close>

theorem checkVersion_reports_latest_witness:
  "trace (fst (checkVersion (example_env (Response 200 (JArr [release ''0.9.0'', release ''1.0.0''])))
                 (start_world [Line []])))
     = [Log L_Checking, HttpGet (JStr VERSIONS_URL),
        Log (L_Latest ''1.0.0''), Log L_PressEnterMain, Question P_Empty]
   \<and> (\<exists>rows. prefix
         [Log L_Checking, HttpGet (JStr VERSIONS_URL), Log (L_NewVersion (JStr ''1.2.0'')),
          Log L_AvailableUpdates, Log (L_Table rows), Log L_Blank, Question P_UpdateYN]
         (trace (fst (checkVersion (example_env (Response 200 (JArr [release ''1.0.0'', release ''1.2.0''])))
                 (start_world [])))))"
proof -
  have o1: "readline_open (start_world [Line []])" and o2: "readline_open (start_world [])"
    by (simp_all add: readline_open_def start_world_def)
  have le: "((1::int), (0::int), (0::int)) \<le> (1, 0, 0)" "\<not> ((1::int), (2::int), (0::int)) \<le> (1, 0, 0)"
    by (simp_all add: less_eq_prod_def)
  from checkVersion_reports_latest [OF ex1_fetch _ _ o1] ex_wf ex1_latest ex_triples le
  have 1: "trace (fst (checkVersion (example_env (Response 200 (JArr [release ''0.9.0'', release ''1.0.0''])))
                 (start_world [Line []])))
     = [Log L_Checking, HttpGet (JStr VERSIONS_URL),
        Log (L_Latest ''1.0.0''), Log L_PressEnterMain, Question P_Empty]"
    by (auto simp: CURRENT_VERSION_def)
  from checkVersion_reports_latest [OF ex2_fetch _ _ o2] ex_wf ex2_latest ex_triples le
  have 2: "\<exists>rows. prefix
         [Log L_Checking, HttpGet (JStr VERSIONS_URL), Log (L_NewVersion (JStr ''1.2.0'')),
          Log L_AvailableUpdates, Log (L_Table rows), Log L_Blank, Question P_UpdateYN]
         (trace (fst (checkVersion (example_env (Response 200 (JArr [release ''1.0.0'', release ''1.2.0''])))
                 (start_world []))))"
    by (auto simp: released_def)
  from 1 2 show ?thesis by blast
qed

section \<open>The cleanup of the version document\<close>

text \<open>A body that \<open>JSON.parse\<close> rejects after the cleanup gives the empty list.\<close>

lemma invalid_body_empty_list:
  assumes "axios_get en (trace w) (JStr VERSIONS_URL) = Response 200 (JStr body)"
    and "JSON_parse (cleanup body) = Inl e"
  shows "fetchVersionsJson en w
     = (emit [HttpGet (JStr VERSIONS_URL), Log (L_ErrorFetchingVersions SyntaxError)] w, Done [])"
  using assms JSON_parse_error [OF assms(2)]
  by (simp add: fetchVersionsJson_def fetchVersionsJson_try_def fetchVersionsJson_catch_def emit_def)

text \<open>
  C2, on a body with a trailing comma before a line break: the body is a well-formed
  list of one release except for a trailing comma that a line break separates from the
  closing bracket. The cleanup turns the line break into a space and
  then finds no \<open>,]\<close> to remove, so \<open>JSON.parse\<close> rejects the text, the error is caught and
  the empty list is returned. With the comma directly before the bracket the same list
  is parsed and the release is produced.
\<close>

theorem trailing_comma_before_newline:
  "cleanup (''['' @ release_text ''1.2.0'' @ '','' @ [CHR 0x0A] @ '']'')
     = ''['' @ release_text ''1.2.0'' @ '', ]''
   \<and> JSON_parse (''['' @ release_text ''1.2.0'' @ '', ]'') = Inl SyntaxError
   \<and> fetchVersionsJson
        (example_env (Response 200 (JStr (''['' @ release_text ''1.2.0'' @ '','' @ [CHR 0x0A] @ '']''))))
        (start_world [])
     = (\<lparr>answers = [], trace = [HttpGet (JStr VERSIONS_URL), Log (L_ErrorFetchingVersions SyntaxError)]\<rparr>,
        Done [])
   \<and> fetchVersionsJson
        (example_env (Response 200 (JStr (''['' @ release_text ''1.2.0'' @ '',]''))))
        (start_world [])
     = (\<lparr>answers = [], trace = [HttpGet (JStr VERSIONS_URL)]\<rparr>, Done [released ''1.2.0''])"
  by code_simp

section \<open>The sync pass\<close>


subsection \<open>\<open>path.join\<close> on plain names\<close>










subsection \<open>What \<open>downloadFile\<close> and the loop do\<close>










subsection \<open>Listings for examples\<close>








section \<open>Launching a script\<close>

text \<open>
  C4: \<open>runScript\<close> on a script whose file is absent or inaccessible prints the error,
  asks for Enter and, once it is given, the main menu is invoked; nothing is thrown.
  When the child fails to launch, or exits with a code other than 0, the error or the
  code is printed and Enter is asked for before the main menu is invoked; as long as
  no answer comes, the menu is not reached. When the child exits with code 0 the main
  menu is invoked with no question asked. \<open>p\<close> is the path of the script.
\<close>

theorem runScript_outcomes:
  assumes p: "p = dirname en @ ''/'' @ s"
  shows "(\<forall>error a rest. fs_access en (trace w) p = Some error \<and> answers w = Line a # rest \<longrightarrow>
            runScript en s w
              = (w\<lparr>answers := rest,
                   trace := trace w @ [FsAccess p, Log (L_ScriptNotFound s error), Log L_PressEnterMenu,
                                       Question P_Empty]\<rparr>, Goto Root))
       \<and> (\<forall>error a rest. fs_access en (trace w) p = None
              \<and> child_run en (trace w @ [FsAccess p]) p = LaunchError error
              \<and> answers w = Line a # rest \<longrightarrow>
            runScript en s w
              = (w\<lparr>answers := rest,
                   trace := trace w @ [FsAccess p, Spawn p, Log (L_ErrorRunning s error),
                                       Log L_PressEnterMenu, Question P_Empty]\<rparr>, Goto Root))
       \<and> (\<forall>code a rest. fs_access en (trace w) p = None
              \<and> child_run en (trace w @ [FsAccess p]) p = ChildExit code \<and> code \<noteq> Some 0
              \<and> answers w = Line a # rest \<longrightarrow>
            runScript en s w
              = (w\<lparr>answers := rest,
                   trace := trace w @ [FsAccess p, Spawn p, Log (L_ExitedWithCode s code),
                                       Log L_PressEnterMenu, Question P_Empty]\<rparr>, Goto Root))
       \<and> (answers w = [] \<and> (fs_access en (trace w) p = None \<longrightarrow>
              child_run en (trace w @ [FsAccess p]) p \<noteq> ChildExit (Some 0)) \<longrightarrow>
            snd (runScript en s w) = Stuck)
       \<and> (fs_access en (trace w) p = None
              \<and> child_run en (trace w @ [FsAccess p]) p = ChildExit (Some 0) \<longrightarrow>
            runScript en s w = (w\<lparr>trace := trace w @ [FsAccess p, Spawn p]\<rparr>, Goto Root))"
  unfolding p
  by (auto simp: runScript_def handler_ack_def getUserInput_def emit_def Let_def
      split: option.splits child_result.splits)

theorem runScript_outcomes_witness:
  "runScript (example_host (Some ENOENT) ChildRunning) ''SepoliaToHoleskyEth.js'' (start_world [Line [], Line ''4''])
     = (\<lparr>answers = [Line ''4''],
         trace = [FsAccess ''/app/SepoliaToHoleskyEth.js'',
                  Log (L_ScriptNotFound ''SepoliaToHoleskyEth.js'' ENOENT), Log L_PressEnterMenu,
                  Question P_Empty]\<rparr>, Goto Root)
   \<and> runScript (example_host None (ChildExit (Some 2))) ''SepoliaToHoleskyEth.js'' (start_world [Line [], Line ''4''])
     = (\<lparr>answers = [Line ''4''],
         trace = [FsAccess ''/app/SepoliaToHoleskyEth.js'', Spawn ''/app/SepoliaToHoleskyEth.js'',
                  Log (L_ExitedWithCode ''SepoliaToHoleskyEth.js'' (Some 2)), Log L_PressEnterMenu,
                  Question P_Empty]\<rparr>, Goto Root)
   \<and> snd (runScript (example_host None (ChildExit (Some 2))) ''SepoliaToHoleskyEth.js'' (start_world [])) = Stuck
   \<and> runScript (example_host None (ChildExit (Some 0))) ''SepoliaToHoleskyEth.js'' (start_world [Line ''4''])
     = (\<lparr>answers = [Line ''4''],
         trace = [FsAccess ''/app/SepoliaToHoleskyEth.js'', Spawn ''/app/SepoliaToHoleskyEth.js'']\<rparr>,
        Goto Root)"
proof -
  have p: "''/app/SepoliaToHoleskyEth.js'' = dirname (example_host a c) @ ''/'' @ ''SepoliaToHoleskyEth.js''"
    for a c by (simp add: example_host_def)
  show ?thesis
    using runScript_outcomes [OF p, of "Some ENOENT" ChildRunning "start_world [Line [], Line ''4'']"]
      runScript_outcomes [OF p, of None "ChildExit (Some 2)" "start_world [Line [], Line ''4'']"]
      runScript_outcomes [OF p, of None "ChildExit (Some 2)" "start_world []"]
      runScript_outcomes [OF p, of None "ChildExit (Some 0)" "start_world [Line ''4'']"]
    by (simp add: example_host_def start_world_def)
qed

section \<open>Invalid menu input\<close>

text \<open>The choices a menu node accepts, what it prints when it is shown, the question it
  asks, and everything it does when the answer is none of its choices.\<close>

definition menu_options :: "node \<Rightarrow> string list" where
  "menu_options n = (case n of Root \<Rightarrow> [''1'', ''2'', ''3'', ''4''] | _ \<Rightarrow> [''1'', ''2'', ''3'', ''4'', ''5''])"

definition display :: "node \<Rightarrow> event list" where
  "display n = (case n of Root \<Rightarrow> displayBanner @ displayMainMenu | _ \<Rightarrow> displaySubMenu n)"

definition menu_prompt :: "node \<Rightarrow> prompt" where
  "menu_prompt n = (case n of Root \<Rightarrow> P_MainChoice | _ \<Rightarrow> P_SubChoice)"

definition invalid_round :: "node \<Rightarrow> event list" where
  "invalid_round n = display n @ [Question (menu_prompt n), Log L_InvalidChoice, SetTimeout n 1500]"

lemma invoke_invalid:
  assumes "trim s \<notin> set (menu_options n)" "answers w = Line s # rest"
  shows "invoke en n w = (w\<lparr>answers := rest, trace := trace w @ invalid_round n\<rparr>, Goto n)"
  using assms
  by (cases n)
    (simp_all add: menu_options_def display_def menu_prompt_def invalid_round_def mainMenu_def
      sepoliaToHoleskyMenu_def holeskyToSepoliaMenu_def getUserInput_def invalid_choice_def emit_def)

lemma invoke_no_answer:
  assumes "answers w = []"
  shows "invoke en n w = (w\<lparr>trace := trace w @ display n @ [Question (menu_prompt n)]\<rparr>, Stuck)"
  using assms
  by (cases n)
    (simp_all add: display_def menu_prompt_def mainMenu_def
      sepoliaToHoleskyMenu_def holeskyToSepoliaMenu_def getUserInput_def emit_def)

lemma run_invalid_sequence:
  assumes "\<forall>s \<in> set ss. trim s \<notin> set (menu_options n)"
    and "answers w = map Line ss @ rest"
  shows "run en first n w
       = run en (first \<and> ss = []) n
           (w\<lparr>answers := rest, trace := trace w @ concat (map (\<lambda>s. invalid_round n) ss)\<rparr>)"
  using assms
proof (induction ss arbitrary: w first)
  case Nil
  then have "w\<lparr>answers := rest, trace := trace w @ concat (map (\<lambda>s. invalid_round n) [])\<rparr> = w"
    by (cases w) simp
  then show ?case by simp
next
  case (Cons s ss)
  let ?w1 = "w\<lparr>answers := map Line ss @ rest, trace := trace w @ invalid_round n\<rparr>"
  from Cons.prems have "invoke en n w = (?w1, Goto n)"
    by (intro invoke_invalid) simp_all
  then have "run en first n w = run en False n ?w1"
    by (subst run.simps) simp
  also have "\<dots> = run en (False \<and> ss = []) n
      (?w1\<lparr>answers := rest, trace := trace ?w1 @ concat (map (\<lambda>s. invalid_round n) ss)\<rparr>)"
    using Cons.prems by (intro Cons.IH) simp_all
  finally show ?case by simp
qed

text \<open>
  C5: when the answer, trimmed, is none of the digit strings the menu node expects,
  the node prints the error and, after 1500 ms, the same node is invoked again. A run
  that is given any finite sequence of such answers shows the same node once more for
  each of them and goes on from that node with the answers that follow; when none
  follow, it is waiting at that node: no other node, no exit, nothing thrown.
\<close>

theorem invalid_input_redisplays:
  assumes "\<forall>s \<in> set ss. trim s \<notin> set (menu_options n)"
  shows "(\<forall>s rest. s \<in> set ss \<and> answers w = Line s # rest \<longrightarrow>
            invoke en n w
              = (w\<lparr>answers := rest,
                   trace := trace w @ display n
                            @ [Question (menu_prompt n), Log L_InvalidChoice, SetTimeout n 1500]\<rparr>,
                 Goto n))
       \<and> (\<forall>rest. answers w = map Line ss @ rest \<longrightarrow>
            run en first n w
              = run en (first \<and> ss = []) n
                  (w\<lparr>answers := rest, trace := trace w @ concat (map (\<lambda>s. invalid_round n) ss)\<rparr>))
       \<and> (answers w = map Line ss \<longrightarrow>
            run en first n w
              = (w\<lparr>answers := [],
                   trace := trace w @ concat (map (\<lambda>s. invalid_round n) ss)
                            @ display n @ [Question (menu_prompt n)]\<rparr>,
                 Waiting))"
proof -
  have one: "invoke en n w
              = (w\<lparr>answers := rest,
                   trace := trace w @ display n
                            @ [Question (menu_prompt n), Log L_InvalidChoice, SetTimeout n 1500]\<rparr>,
                 Goto n)"
    if "s \<in> set ss" "answers w = Line s # rest" for s rest
    using that assms invoke_invalid [of s n w rest en] by (simp add: invalid_round_def)
  have many: "run en first n w
            = run en (first \<and> ss = []) n
                (w\<lparr>answers := rest, trace := trace w @ concat (map (\<lambda>s. invalid_round n) ss)\<rparr>)"
    if "answers w = map Line ss @ rest" for rest
    using assms that by (rule run_invalid_sequence)
  let ?w = "w\<lparr>answers := [], trace := trace w @ concat (map (\<lambda>s. invalid_round n) ss)\<rparr>"
  have "run en (first \<and> ss = []) n ?w
      = (?w\<lparr>trace := trace ?w @ display n @ [Question (menu_prompt n)]\<rparr>, Waiting)"
    by (subst run.simps) (simp add: invoke_no_answer)
  with many [of "[]"] have last: "run en first n w
            = (w\<lparr>answers := [],
                 trace := trace w @ concat (map (\<lambda>s. invalid_round n) ss)
                          @ display n @ [Question (menu_prompt n)]\<rparr>,
               Waiting)"
    if "answers w = map Line ss"
    using that by simp
  from one many last show ?thesis by blast
qed

theorem invalid_input_redisplays_witness:
  "run (example_host None ChildRunning) True SepoliaToHolesky (start_world [Line ''9'', Line ''back'', Line '' 6''])
     = (\<lparr>answers = [],
         trace = invalid_round SepoliaToHolesky @ invalid_round SepoliaToHolesky
                 @ invalid_round SepoliaToHolesky
                 @ display SepoliaToHolesky @ [Question P_SubChoice]\<rparr>, Waiting)
   \<and> invoke (example_host None ChildRunning) Root (start_world [Line ''5'', Line ''4''])
     = (\<lparr>answers = [Line ''4''],
         trace = display Root @ [Question P_MainChoice, Log L_InvalidChoice, SetTimeout Root 1500]\<rparr>,
        Goto Root)"
proof -
  have t: "trim ''9'' = ''9''" "trim ''back'' = ''back''" "trim '' 6'' = ''6''" "trim ''5'' = ''5''"
    by code_simp+
  have a: "\<forall>s \<in> set [''9'', ''back'', '' 6'']. trim s \<notin> set (menu_options SepoliaToHolesky)"
    and b: "\<forall>s \<in> set [''5'']. trim s \<notin> set (menu_options Root)"
    by (simp_all add: t menu_options_def)
  note 1 = invalid_input_redisplays [OF a, of "start_world [Line ''9'', Line ''back'', Line '' 6'']"
      "example_host None ChildRunning" True, THEN conjunct2, THEN conjunct2]
  note 2 = invalid_input_redisplays [OF b, of "start_world [Line ''5'', Line ''4'']"
      "example_host None ChildRunning" True, THEN conjunct1, rule_format, of "''5''" "[Line ''4'']"]
  from 1 2
  show ?thesis by (simp add: start_world_def menu_prompt_def)
qed

section \<open>A failed request for the version document\<close>

text \<open>What \<open>fetchVersionsJson\<close> prints and returns when axios rejects, and when the status
  is not 200; and what the main menu does with an empty result.\<close>

lemma fetchVersionsJson_rejected:
  assumes "axios_get en (trace w) (JStr VERSIONS_URL) = Failure error"
  shows "fetchVersionsJson en w
     = (emit (HttpGet (JStr VERSIONS_URL) # Log (L_ErrorFetchingVersions error)
              # (if error_code error = Some ''ECONNREFUSED'' \<or> error_code error = Some ''ETIMEDOUT''
                 then [Log L_CheckNetwork] else [])) w, Done [])"
  using assms
  by (simp add: fetchVersionsJson_def fetchVersionsJson_try_def fetchVersionsJson_catch_def)

lemma fetchVersionsJson_other_status:
  assumes "axios_get en (trace w) (JStr VERSIONS_URL) = Response status data" "status \<noteq> 200"
  shows "fetchVersionsJson en w
     = (emit (HttpGet (JStr VERSIONS_URL) # Log (L_FetchVersionsFailed status)
              # (if status = 403 then [Log L_RateLimit] else [])
              @ (if status = 404 then [Log L_VersionFileNotFound] else [])) w, Done [])"
  using assms
  by (simp add: fetchVersionsJson_def fetchVersionsJson_try_def)

lemma unable_to_check:
  assumes ans: "answers w = Line c # Line a # rest" and three: "trim c = ''3''"
    and h: "h = trace w @ displayBanner @ displayMainMenu @ [Question P_MainChoice, Log L_Checking]"
    and fetch: "fetchVersionsJson en (w\<lparr>answers := Line a # rest, trace := h\<rparr>)
        = (w\<lparr>answers := Line a # rest, trace := h @ HttpGet (JStr VERSIONS_URL) # ls\<rparr>, Done [])"
  shows "mainMenu en w
       = (w\<lparr>answers := rest,
            trace := h @ HttpGet (JStr VERSIONS_URL) # ls
                     @ [Log L_UnableToCheck, Log L_PressEnterMain, Question P_Empty]\<rparr>,
          Goto Root)"
proof -
  have g: "getUserInput P_MainChoice (emit (displayBanner @ displayMainMenu) w)
      = (w\<lparr>answers := Line a # rest,
            trace := trace w @ displayBanner @ displayMainMenu @ [Question P_MainChoice]\<rparr>, Done ''3'')"
    using ans three by (simp add: getUserInput_def emit_def)
  have c: "checkVersion en (w\<lparr>answers := Line a # rest,
            trace := trace w @ displayBanner @ displayMainMenu @ [Question P_MainChoice]\<rparr>)
      = (w\<lparr>answers := rest,
            trace := h @ HttpGet (JStr VERSIONS_URL) # ls
                     @ [Log L_UnableToCheck, Log L_PressEnterMain, Question P_Empty]\<rparr>, Done True)"
    using fetch unfolding h
    by (simp add: checkVersion_def checkVersion_try_def emit_def press_enter_main_def getUserInput_def)
  from g c show ?thesis by (simp add: mainMenu_def)
qed

text \<open>
  C6: "3" is chosen at the main menu and Enter is pressed afterwards; \<open>h\<close> is all that
  happened when the request is made. When axios rejects, \<open>fetchVersionsJson\<close> prints
  "Error fetching versions" with the message of that error, and the network hint when
  its code is ECONNREFUSED or ETIMEDOUT; when the status is not 200 it prints "Failed to
  fetch versions" with that status, and the rate-limit hint for 403 or the not-found
  hint for 404. In both cases it returns the empty array and throws nothing;
  \<open>checkVersion\<close> then prints that it is unable to check and asks for Enter, and the
  main menu is invoked again: the process does not exit.
\<close>

theorem failed_request_returns_to_menu:
  assumes ans: "answers w = Line c # Line a # rest" and three: "trim c = ''3''"
    and h: "h = trace w @ displayBanner @ displayMainMenu @ [Question P_MainChoice, Log L_Checking]"
    and w1: "w1 = w\<lparr>answers := Line a # rest, trace := h\<rparr>"
  shows "(\<forall>error. axios_get en h (JStr VERSIONS_URL) = Failure error \<longrightarrow>
            fetchVersionsJson en w1
              = (w1\<lparr>trace := h @ HttpGet (JStr VERSIONS_URL) # Log (L_ErrorFetchingVersions error)
                        # (if error_code error = Some ''ECONNREFUSED''
                              \<or> error_code error = Some ''ETIMEDOUT''
                           then [Log L_CheckNetwork] else [])\<rparr>, Done [])
          \<and> mainMenu en w
              = (w\<lparr>answers := rest,
                   trace := h @ HttpGet (JStr VERSIONS_URL) # Log (L_ErrorFetchingVersions error)
                        # (if error_code error = Some ''ECONNREFUSED''
                              \<or> error_code error = Some ''ETIMEDOUT''
                           then [Log L_CheckNetwork] else [])
                        @ [Log L_UnableToCheck, Log L_PressEnterMain, Question P_Empty]\<rparr>,
                 Goto Root))
       \<and> (\<forall>status data. axios_get en h (JStr VERSIONS_URL) = Response status data
              \<and> status \<noteq> 200 \<longrightarrow>
            fetchVersionsJson en w1
              = (w1\<lparr>trace := h @ HttpGet (JStr VERSIONS_URL) # Log (L_FetchVersionsFailed status)
                        # (if status = 403 then [Log L_RateLimit] else [])
                        @ (if status = 404 then [Log L_VersionFileNotFound] else [])\<rparr>, Done [])
          \<and> mainMenu en w
              = (w\<lparr>answers := rest,
                   trace := h @ HttpGet (JStr VERSIONS_URL) # Log (L_FetchVersionsFailed status)
                        # (if status = 403 then [Log L_RateLimit] else [])
                        @ (if status = 404 then [Log L_VersionFileNotFound] else [])
                        @ [Log L_UnableToCheck, Log L_PressEnterMain, Question P_Empty]\<rparr>,
                 Goto Root))"
proof -
  have tr: "trace w1 = h" by (simp add: w1)
  have rej: "fetchVersionsJson en w1
              = (w1\<lparr>trace := h @ HttpGet (JStr VERSIONS_URL) # Log (L_ErrorFetchingVersions error)
                        # (if error_code error = Some ''ECONNREFUSED''
                              \<or> error_code error = Some ''ETIMEDOUT''
                           then [Log L_CheckNetwork] else [])\<rparr>, Done [])
          \<and> mainMenu en w
              = (w\<lparr>answers := rest,
                   trace := h @ HttpGet (JStr VERSIONS_URL) # Log (L_ErrorFetchingVersions error)
                        # (if error_code error = Some ''ECONNREFUSED''
                              \<or> error_code error = Some ''ETIMEDOUT''
                           then [Log L_CheckNetwork] else [])
                        @ [Log L_UnableToCheck, Log L_PressEnterMain, Question P_Empty]\<rparr>,
                 Goto Root)"
    if "axios_get en h (JStr VERSIONS_URL) = Failure error" for error
  proof -
    let ?ls = "Log (L_ErrorFetchingVersions error)
                        # (if error_code error = Some ''ECONNREFUSED''
                              \<or> error_code error = Some ''ETIMEDOUT''
                           then [Log L_CheckNetwork] else [])"
    from that tr have "axios_get en (trace w1) (JStr VERSIONS_URL) = Failure error" by simp
    from fetchVersionsJson_rejected [OF this]
    have f: "fetchVersionsJson en w1 = (w1\<lparr>trace := h @ HttpGet (JStr VERSIONS_URL) # ?ls\<rparr>, Done [])"
      by (simp add: emit_def tr)
    then have "fetchVersionsJson en (w\<lparr>answers := Line a # rest, trace := h\<rparr>)
        = (w\<lparr>answers := Line a # rest, trace := h @ HttpGet (JStr VERSIONS_URL) # ?ls\<rparr>, Done [])"
      by (simp add: w1)
    from unable_to_check [OF ans three h this] f show ?thesis by simp
  qed
  have oth: "fetchVersionsJson en w1
              = (w1\<lparr>trace := h @ HttpGet (JStr VERSIONS_URL) # Log (L_FetchVersionsFailed status)
                        # (if status = 403 then [Log L_RateLimit] else [])
                        @ (if status = 404 then [Log L_VersionFileNotFound] else [])\<rparr>, Done [])
          \<and> mainMenu en w
              = (w\<lparr>answers := rest,
                   trace := h @ HttpGet (JStr VERSIONS_URL) # Log (L_FetchVersionsFailed status)
                        # (if status = 403 then [Log L_RateLimit] else [])
                        @ (if status = 404 then [Log L_VersionFileNotFound] else [])
                        @ [Log L_UnableToCheck, Log L_PressEnterMain, Question P_Empty]\<rparr>,
                 Goto Root)"
    if "axios_get en h (JStr VERSIONS_URL) = Response status data" "status \<noteq> 200" for status data
  proof -
    let ?ls = "Log (L_FetchVersionsFailed status)
                        # (if status = 403 then [Log L_RateLimit] else [])
                        @ (if status = 404 then [Log L_VersionFileNotFound] else [])"
    from that tr have "axios_get en (trace w1) (JStr VERSIONS_URL) = Response status data" by simp
    from fetchVersionsJson_other_status [OF this that(2)]
    have f: "fetchVersionsJson en w1 = (w1\<lparr>trace := h @ HttpGet (JStr VERSIONS_URL) # ?ls\<rparr>, Done [])"
      by (simp add: emit_def tr)
    then have "fetchVersionsJson en (w\<lparr>answers := Line a # rest, trace := h\<rparr>)
        = (w\<lparr>answers := Line a # rest, trace := h @ HttpGet (JStr VERSIONS_URL) # ?ls\<rparr>, Done [])"
      by (simp add: w1)
    from unable_to_check [OF ans three h this] f show ?thesis by simp
  qed
  from rej oth show ?thesis by blast
qed

theorem failed_request_returns_to_menu_witness:
  "mainMenu (example_env (Failure (ExternalError (Some ''ECONNREFUSED'') ''connect ECONNREFUSED'')))
          (start_world [Line ''3'', Line [], Line ''4''])
     = (\<lparr>answers = [Line ''4''],
         trace = displayBanner @ displayMainMenu
                 @ [Question P_MainChoice, Log L_Checking, HttpGet (JStr VERSIONS_URL),
                    Log (L_ErrorFetchingVersions (ExternalError (Some ''ECONNREFUSED'') ''connect ECONNREFUSED'')),
                    Log L_CheckNetwork,
                    Log L_UnableToCheck, Log L_PressEnterMain, Question P_Empty]\<rparr>, Goto Root)
   \<and> mainMenu (example_env (Failure (ExternalError (Some ''ERR_BAD_REQUEST'') ''Request failed with status code 404'')))
          (start_world [Line ''3'', Line [], Line ''4''])
     = (\<lparr>answers = [Line ''4''],
         trace = displayBanner @ displayMainMenu
                 @ [Question P_MainChoice, Log L_Checking, HttpGet (JStr VERSIONS_URL),
                    Log (L_ErrorFetchingVersions
                           (ExternalError (Some ''ERR_BAD_REQUEST'') ''Request failed with status code 404'')),
                    Log L_UnableToCheck, Log L_PressEnterMain, Question P_Empty]\<rparr>, Goto Root)
   \<and> mainMenu (example_env (Response 204 (JStr [])))
          (start_world [Line ''3'', Line [], Line ''4''])
     = (\<lparr>answers = [Line ''4''],
         trace = displayBanner @ displayMainMenu
                 @ [Question P_MainChoice, Log L_Checking, HttpGet (JStr VERSIONS_URL),
                    Log (L_FetchVersionsFailed 204),
                    Log L_UnableToCheck, Log L_PressEnterMain, Question P_Empty]\<rparr>, Goto Root)"
proof -
  let ?w = "start_world [Line ''3'', Line [], Line ''4'']"
  have a: "answers ?w = [Line ''3'', Line [], Line ''4'']"
    by (simp add: start_world_def)
  have g: "axios_get (example_env r) h u = r" for r h u
    by (simp add: example_env_def)
  note t = failed_request_returns_to_menu [OF a trim_digit_choices(3) refl refl]
  note 1 = t [THEN conjunct1, rule_format, OF g, THEN conjunct2]
  note 2 = t [THEN conjunct2, rule_format, OF conjI, OF g, THEN conjunct2]
  have 3: "(204::nat) \<noteq> 200" by simp
  from 1 [of "ExternalError (Some ''ECONNREFUSED'') ''connect ECONNREFUSED''"]
    1 [of "ExternalError (Some ''ERR_BAD_REQUEST'') ''Request failed with status code 404''"]
    2 [of 204 "JStr []", OF 3]
  show ?thesis by (simp add: start_world_def)
qed

section \<open>The scenario "1", "2", "5", "4"\<close>

text \<open>
  With the LINK script present and a child that exits with code 0, the answers "1", "2",
  "5", "4" spawn the child: "2" in the submenu is LINK, not back; "5" is then an invalid
  choice at the main menu, and "4" exits with status 0.
\<close>

theorem link_choice_spawns_child:
  "main (example_host None (ChildExit (Some 0)))
        (start_world [Line ''1'', Line ''2'', Line ''5'', Line ''4''])
     = (\<lparr>answers = [],
         trace = Log L_Starting # display Root @ [Question P_MainChoice]
                 @ display SepoliaToHolesky
                 @ [Question P_SubChoice, FsAccess ''/app/SepoliaToHoleskyLinkTransfer.js'',
                    Spawn ''/app/SepoliaToHoleskyLinkTransfer.js'']
                 @ invalid_round Root
                 @ display Root @ [Question P_MainChoice, Log L_Goodbye, RlClose, ProcessExit 0]\<rparr>,
        Exited 0)
   \<and> Spawn ''/app/SepoliaToHoleskyLinkTransfer.js''
       \<in> set (trace (fst (main (example_host None (ChildExit (Some 0)))
                   (start_world [Line ''1'', Line ''2'', Line ''5'', Line ''4'']))))"
  by code_simp

text \<open>
  C7, amended: for the answers "1", "2", "5", "4" from the start of the program, the
  Sepolia to Holesky submenu is shown and "2" dispatches the LINK script; when the file
  of the script is absent or inaccessible, the error is printed, no child process is
  spawned, "5" is taken as the Enter that acknowledges it, the main menu is shown again
  and "4" ends the process with status 0.
\<close>

theorem link_choice_on_missing_script:
  assumes ans: "answers w = [Line ''1'', Line ''2'', Line ''5'', Line ''4'']"
    and p: "p = dirname en @ ''/SepoliaToHoleskyLinkTransfer.js''"
    and missing: "fs_access en
        (trace w @ Log L_Starting # display Root @ [Question P_MainChoice]
           @ display SepoliaToHolesky @ [Question P_SubChoice]) p = Some error"
  shows "main en w
     = (w\<lparr>answers := [],
          trace := trace w @ Log L_Starting # display Root @ [Question P_MainChoice]
                 @ display SepoliaToHolesky
                 @ [Question P_SubChoice, FsAccess p,
                    Log (L_ScriptNotFound ''SepoliaToHoleskyLinkTransfer.js'' error),
                    Log L_PressEnterMenu, Question P_Empty]
                 @ display Root @ [Question P_MainChoice, Log L_Goodbye, RlClose, ProcessExit 0]\<rparr>,
        Exited 0)
    \<and> (\<forall>q. Spawn q \<notin> set (drop (length (trace w)) (trace (fst (main en w)))))"
proof -
  let ?w1 = "w\<lparr>answers := [Line ''4''],
          trace := trace w @ Log L_Starting # display Root @ [Question P_MainChoice]
                 @ display SepoliaToHolesky
                 @ [Question P_SubChoice, FsAccess p,
                    Log (L_ScriptNotFound ''SepoliaToHoleskyLinkTransfer.js'' error),
                    Log L_PressEnterMenu, Question P_Empty]\<rparr>"
  have 1: "mainMenu en (emit [Log L_Starting] w) = (?w1, Goto Root)"
    using ans missing unfolding p
    by (simp add: mainMenu_def sepoliaToHoleskyMenu_def runScript_def getUserInput_def emit_def
        display_def trim_digit_choices)
  have 2: "mainMenu en ?w1
      = (?w1\<lparr>answers := [],
              trace := trace ?w1 @ display Root
                       @ [Question P_MainChoice, Log L_Goodbye, RlClose, ProcessExit 0]\<rparr>, Exit 0)"
    by (simp add: mainMenu_def getUserInput_def emit_def display_def trim_digit_choices)
  have "main en w = run en False Root ?w1"
    unfolding main_def using 1 by (subst run.simps) simp
  also have "\<dots> = (?w1\<lparr>answers := [],
              trace := trace ?w1 @ display Root
                       @ [Question P_MainChoice, Log L_Goodbye, RlClose, ProcessExit 0]\<rparr>, Exited 0)"
    using 2 by (subst run.simps) simp
  finally have m: "main en w
     = (w\<lparr>answers := [],
          trace := trace w @ Log L_Starting # display Root @ [Question P_MainChoice]
                 @ display SepoliaToHolesky
                 @ [Question P_SubChoice, FsAccess p,
                    Log (L_ScriptNotFound ''SepoliaToHoleskyLinkTransfer.js'' error),
                    Log L_PressEnterMenu, Question P_Empty]
                 @ display Root @ [Question P_MainChoice, Log L_Goodbye, RlClose, ProcessExit 0]\<rparr>,
        Exited 0)"
    by simp
  have "Spawn q \<notin> set (drop (length (trace w)) (trace (fst (main en w))))" for q
    unfolding m
    by (auto simp: display_def displayBanner_def displayMainMenu_def displaySubMenu_def)
  with m show ?thesis by blast
qed

theorem link_choice_on_missing_script_witness:
  "main (example_host (Some ENOENT) ChildRunning)
        (start_world [Line ''1'', Line ''2'', Line ''5'', Line ''4''])
     = (\<lparr>answers = [],
         trace = Log L_Starting # display Root @ [Question P_MainChoice]
                 @ display SepoliaToHolesky
                 @ [Question P_SubChoice, FsAccess ''/app/SepoliaToHoleskyLinkTransfer.js'',
                    Log (L_ScriptNotFound ''SepoliaToHoleskyLinkTransfer.js'' ENOENT),
                    Log L_PressEnterMenu, Question P_Empty]
                 @ display Root @ [Question P_MainChoice, Log L_Goodbye, RlClose, ProcessExit 0]\<rparr>,
        Exited 0)"
proof -
  have a: "answers (start_world [Line ''1'', Line ''2'', Line ''5'', Line ''4''])
      = [Line ''1'', Line ''2'', Line ''5'', Line ''4'']"
    by (simp add: start_world_def)
  have p: "''/app/SepoliaToHoleskyLinkTransfer.js''
      = dirname (example_host (Some ENOENT) ChildRunning) @ ''/SepoliaToHoleskyLinkTransfer.js''"
    by (simp add: example_host_def)
  have m: "fs_access (example_host (Some ENOENT) ChildRunning) h ''/app/SepoliaToHoleskyLinkTransfer.js''
      = Some ENOENT" for h
    by (simp add: example_host_def)
  from link_choice_on_missing_script [OF a p m, THEN conjunct1]
  show ?thesis by (simp add: start_world_def)
qed

section \<open>Exit, and an error at the start\<close>

text \<open>
  C8: the answer "4" at the main menu prints the goodbye line, closes the readline
  interface and ends the process with status 0; the run is over and nothing is printed
  after it. When the promise of the first \<open>mainMenu()\<close> call rejects, the error is
  printed with \<open>console.error\<close> and the process ends with status 1.
\<close>

theorem exit_choice_and_startup_error:
  "(\<forall>s rest. answers w = Line s # rest \<and> trim s = ''4'' \<longrightarrow>
       mainMenu en w
         = (w\<lparr>answers := rest,
              trace := trace w @ displayBanner @ displayMainMenu
                       @ [Question P_MainChoice, Log L_Goodbye, RlClose, ProcessExit 0]\<rparr>, Exit 0)
     \<and> run en first Root w
         = (w\<lparr>answers := rest,
              trace := trace w @ displayBanner @ displayMainMenu
                       @ [Question P_MainChoice, Log L_Goodbye, RlClose, ProcessExit 0]\<rparr>, Exited 0))
   \<and> (\<forall>w' e. mainMenu en (emit [Log L_Starting] w) = (w', Rejected e) \<longrightarrow>
         main en w = (emit [LogError e, ProcessExit 1] w', Exited 1))"
proof -
  have m: "mainMenu en w
         = (w\<lparr>answers := rest,
              trace := trace w @ displayBanner @ displayMainMenu
                       @ [Question P_MainChoice, Log L_Goodbye, RlClose, ProcessExit 0]\<rparr>, Exit 0)"
    if "answers w = Line s # rest" "trim s = ''4''" for s rest
    using that by (simp add: mainMenu_def getUserInput_def emit_def)
  have r: "run en first Root w
         = (w\<lparr>answers := rest,
              trace := trace w @ displayBanner @ displayMainMenu
                       @ [Question P_MainChoice, Log L_Goodbye, RlClose, ProcessExit 0]\<rparr>, Exited 0)"
    if "answers w = Line s # rest" "trim s = ''4''" for s rest
    using m [OF that] by (subst run.simps) simp
  have e: "main en w = (emit [LogError e, ProcessExit 1] w', Exited 1)"
    if "mainMenu en (emit [Log L_Starting] w) = (w', Rejected e)" for w' e
    using that unfolding main_def by (subst run.simps) simp
  from m r e show ?thesis by blast
qed

theorem exit_choice_and_startup_error_witness:
  "run (example_host None ChildRunning) False Root (start_world [Line ''4'', Line ''1''])
     = (\<lparr>answers = [Line ''1''],
         trace = displayBanner @ displayMainMenu
                 @ [Question P_MainChoice, Log L_Goodbye, RlClose, ProcessExit 0]\<rparr>, Exited 0)
   \<and> main (example_host None ChildRunning) (start_world [Closed])
     = (\<lparr>answers = [],
         trace = Log L_Starting # displayBanner @ displayMainMenu
                 @ [LogError ErrUseAfterClose, ProcessExit 1]\<rparr>, Exited 1)"
proof -
  have c: "mainMenu (example_host None ChildRunning) (emit [Log L_Starting] (start_world [Closed]))
      = (\<lparr>answers = [], trace = Log L_Starting # displayBanner @ displayMainMenu\<rparr>, Rejected ErrUseAfterClose)"
    by (simp add: mainMenu_def getUserInput_def emit_def start_world_def)
  note 1 = exit_choice_and_startup_error [of "start_world [Line ''4'', Line ''1'']"
      "example_host None ChildRunning" False, THEN conjunct1, rule_format, of "''4''" "[Line ''1'']",
      THEN conjunct2]
  note 2 = exit_choice_and_startup_error [of "start_world [Closed]"
      "example_host None ChildRunning" False, THEN conjunct2, rule_format, OF c]
  from 1 2 show ?thesis by (simp add: start_world_def trim_digit_choices emit_def)
qed

section \<open>fetchVersionsJson never throws\<close>

lemma fetchVersionsJson_try_not_Pending: "fetchVersionsJson_try en w \<noteq> (w1, Pending)"
  by (simp add: fetchVersionsJson_try_def Let_def split: http_result.splits sum.splits)

text \<open>
  C9: \<open>fetchVersionsJson\<close> always returns an array and never throws, whatever axios
  answers. When its \<open>try\<close> block throws, the \<open>catch\<close> block prints the error and the
  result is the empty array; a 200 response whose data is neither a string nor an array
  makes \<open>data.map\<close> throw a \<open>TypeError\<close>, which is caught like every other error.
\<close>

theorem fetchVersionsJson_total:
  "\<exists>w' vs. fetchVersionsJson en w = (w', Done vs)
     \<and> (\<forall>w1 e. fetchVersionsJson_try en w = (w1, Raise e) \<longrightarrow>
           vs = [] \<and> (\<exists>ls. trace w' = trace w1 @ Log (L_ErrorFetchingVersions e) # ls))
     \<and> (\<forall>data. axios_get en (trace w) (JStr VERSIONS_URL) = Response 200 data
           \<and> (\<forall>s. data \<noteq> JStr s) \<and> (\<forall>items. data \<noteq> JArr items)
           \<longrightarrow> fetchVersionsJson_try en w = (emit [HttpGet (JStr VERSIONS_URL)] w, Raise TypeError))"
proof -
  obtain w1 r where r: "fetchVersionsJson_try en w = (w1, r)"
    by (cases "fetchVersionsJson_try en w")
  have raise: "fetchVersionsJson_try en w = (emit [HttpGet (JStr VERSIONS_URL)] w, Raise TypeError)"
    if "axios_get en (trace w) (JStr VERSIONS_URL) = Response 200 data"
      and "\<forall>s. data \<noteq> JStr s" and "\<forall>items. data \<noteq> JArr items" for data
    using that by (cases data) (simp_all add: fetchVersionsJson_try_def as_array_def)
  show ?thesis
  proof (cases r)
    case (Done vs)
    with r have "fetchVersionsJson en w = (w1, Done vs)" by (simp add: fetchVersionsJson_def)
    with r Done raise show ?thesis by auto
  next
    case (Raise e)
    with r have "fetchVersionsJson en w = fetchVersionsJson_catch e w1"
      by (simp add: fetchVersionsJson_def)
    with r Raise raise show ?thesis by (auto simp: fetchVersionsJson_catch_def)
  next
    case Pending
    with r fetchVersionsJson_try_not_Pending show ?thesis by blast
  qed
qed

theorem fetchVersionsJson_total_witness:
  "fetchVersionsJson (example_env (Response 200 (JObj [(''VERSION'', JStr ''1.2.0'')]))) (start_world [])
     = (\<lparr>answers = [], trace = [HttpGet (JStr VERSIONS_URL), Log (L_ErrorFetchingVersions TypeError)]\<rparr>, Done [])"
proof -
  let ?en = "example_env (Response 200 (JObj [(''VERSION'', JStr ''1.2.0'')]))"
  let ?w = "start_world []"
  have t: "fetchVersionsJson_try ?en ?w = (emit [HttpGet (JStr VERSIONS_URL)] ?w, Raise TypeError)"
    using fetchVersionsJson_total [of ?en ?w]
    by (auto simp: example_env_def)
  from fetchVersionsJson_total [of ?en ?w] obtain w' vs where
    f: "fetchVersionsJson ?en ?w = (w', Done vs)"
    and "\<forall>w1 e. fetchVersionsJson_try ?en ?w = (w1, Raise e) \<longrightarrow> vs = []"
    by blast
  with t have "vs = []" by blast
  with f t show ?thesis
    by (simp add: fetchVersionsJson_def fetchVersionsJson_catch_def start_world_def emit_def)
qed

section \<open>Only three components of a version are compared\<close>

lemma compare_loop_equal:
  assumes "\<forall>i \<in> set is. \<exists>n. idx pa i = Num n \<and> idx pb i = Num n"
  shows "compare_loop pa pb is = Num 0"
  using assms by (induction "is") auto

lemma isLatest_loop_equal:
  assumes "\<forall>i \<in> set is. \<exists>n. idx pa i = Num n \<and> idx pb i = Num n"
  shows "isLatest_loop pa pb is"
  using assms by (induction "is") auto

text \<open>
  C10: the comparison looks at the components 0, 1 and 2 only. When these are equal
  integers in two versions, the comparator of the sort returns 0 and the loop that sets
  \<open>isLatest\<close> leaves it true; so when the local version and the latest remote version
  agree on them (local 1.0.0, remote 1.0.0.5) the check says up to date and no update is
  offered.
\<close>

theorem first_three_components_decide:
  assumes a: "version a = JStr s" and b: "version b = JStr t"
    and eq: "\<forall>i<3. \<exists>n. idx (map Number (split_dot s)) i = Num n \<and> idx (map Number (split_dot t)) i = Num n"
  shows "comparator a b = Inr (Num 0)
       \<and> isLatest_loop (map Number (split_dot s)) (map Number (split_dot t)) [0..<3]
       \<and> (\<forall>versions sorted_versions isLatest.
            s = CURRENT_VERSION \<and> latest_check versions = Inr (sorted_versions, b, isLatest) \<longrightarrow> isLatest)"
proof -
  from eq have all: "\<forall>i \<in> set [0..<3]. \<exists>n. idx (map Number (split_dot s)) i = Num n
      \<and> idx (map Number (split_dot t)) i = Num n"
    by simp
  have c: "comparator a b = Inr (Num 0)"
    using compare_loop_equal [OF all] a b by (simp add: comparator_def version_parts_def)
  have l: "isLatest_loop (map Number (split_dot s)) (map Number (split_dot t)) [0..<3]"
    by (rule isLatest_loop_equal [OF all])
  have "isLatest" if "s = CURRENT_VERSION" and "latest_check versions = Inr (sorted_versions, b, isLatest)"
    for versions sorted_versions isLatest
    using that l b
    by (auto simp: latest_check_def version_parts_def split: sum.splits list.splits)
  with c l show ?thesis by blast
qed

lemma parts_1_0_0: "map Number (split_dot ''1.0.0'') = [Num 1, Num 0, Num 0]"
  by code_simp

lemma parts_1_0_0_5: "map Number (split_dot ''1.0.0.5'') = [Num 1, Num 0, Num 0, Num 5]"
  by code_simp

lemma lc: "latest_check [vinfo ''1.0.0.5''] = Inr ([vinfo ''1.0.0.5''], vinfo ''1.0.0.5'', True)"
  by code_simp

theorem first_three_components_decide_witness:
  "comparator (vinfo ''1.0.0'') (vinfo ''1.0.0.5'') = Inr (Num 0)
   \<and> latest_check [vinfo ''1.0.0.5''] = Inr ([vinfo ''1.0.0.5''], vinfo ''1.0.0.5'', True)"
proof -
  have "\<forall>i<3. \<exists>n. idx (map Number (split_dot ''1.0.0'')) i = Num n
      \<and> idx (map Number (split_dot ''1.0.0.5'')) i = Num n"
    unfolding parts_1_0_0 parts_1_0_0_5 by (simp add: idx_def less_Suc_eq numeral_3_eq_3 nth_Cons')
  from first_three_components_decide [of "vinfo ''1.0.0''" "''1.0.0''" "vinfo ''1.0.0.5''" "''1.0.0.5''", OF _ _ this]
  show ?thesis using lc by (simp add: vinfo_def)
qed

end
